theory Spec2Isabelle
  imports Complex_Main
begin

section \<open>Data model\<close>

text \<open>
  The rows the department service reads and writes through the Prisma client. Only the
  columns the service touches are kept. An id is a JavaScript string; a nullable column
  is an \<open>option\<close> (\<open>None\<close> is \<open>null\<close>).
\<close>

record department =
  dept_id :: string
  name :: string
  description :: "string option"
  isActive :: bool
  managerId :: "string option"
  parentId :: "string option"

text \<open>
  Modelled from the spec: the Prisma schema is not among the sources. Of an employee and
  a position the service reads the id, the status and the department the row references
  (the spec's \<open>departmentId\<close>).
\<close>

record employee =
  emp_id :: string
  employmentStatus :: string
  emp_departmentId :: "string option"

record position =
  pos_id :: string
  pos_isActive :: bool
  pos_departmentId :: "string option"

record database =
  departments :: "department list"
  employees :: "employee list"
  positions :: "position list"

section \<open>Errors and JavaScript values\<close>

text \<open>
  A Zod issue is the path of the field and the message the schema gives for it
  (\<open>None\<close> where the schema gives none and the library's own message applies).
  \<open>PrismaError\<close> is whatever the client throws; the \<^verbatim>\<open>catch\<close> blocks
  of the service turn it into \<open>Error\<close> with a fixed message.
\<close>

type_synonym zod_issue = "string \<times> string option"

datatype error =
    UnauthorizedError string
  | ValidationError string
  | NotFoundError string
  | ZodError "zod_issue list"
  | PrismaError
  | Error string

text \<open>
  The values a caller can put in a payload field. \<open>Undefined\<close> is an absent key.
  Numbers are the integral ones: Prisma's \<^verbatim>\<open>skip\<close> and \<^verbatim>\<open>take\<close> are
  integers.
\<close>

datatype jsval = Undefined | Null | Bool bool | Num int | Str string

definition truthy :: "string \<Rightarrow> bool" where
  "truthy s = (s \<noteq> [])"

definition is_space :: "char \<Rightarrow> bool" where
  "is_space c = (c \<in> set [CHR '' '', CHR 0x09, CHR 0x0A, CHR 0x0B, CHR 0x0C, CHR 0x0D])"

text \<open>\<^verbatim>\<open>String.prototype.trim\<close>, on the ASCII white space.\<close>

definition trim :: "string \<Rightarrow> string" where
  "trim s = rev (dropWhile is_space (rev (dropWhile is_space s)))"

definition to_lower :: "char \<Rightarrow> char" where
  "to_lower c =
     (let n = (of_char c :: nat) in if 65 \<le> n \<and> n \<le> 90 then char_of (n + 32) else c)"

text \<open>Prisma's \<^verbatim>\<open>mode: 'insensitive'\<close>, as equality up to the case of ASCII letters.\<close>

definition equals_insensitive :: "string \<Rightarrow> string \<Rightarrow> bool" where
  "equals_insensitive a b = (map to_lower a = map to_lower b)"

fun contains :: "string \<Rightarrow> string \<Rightarrow> bool" where
  "contains [] needle = (needle = [])"
| "contains (h # t) needle = (take (length needle) (h # t) = needle \<or> contains t needle)"

definition contains_insensitive :: "string \<Rightarrow> string \<Rightarrow> bool" where
  "contains_insensitive hay needle = contains (map to_lower hay) (map to_lower needle)"

definition is_hex :: "char \<Rightarrow> bool" where
  "is_hex c = (c \<in> set ''0123456789abcdefABCDEF'')"

text \<open>
  \<^verbatim>\<open>z.string().uuid()\<close>: the 8-4-4-4-12 layout of hexadecimal digits. (Some releases
  of the library also restrict the version and variant digits.)
\<close>

definition is_uuid :: "string \<Rightarrow> bool" where
  "is_uuid s =
     (length s = 36 \<and>
      list_all is_hex (take 8 s) \<and> s ! 8 = CHR ''-'' \<and>
      list_all is_hex (take 4 (drop 9 s)) \<and> s ! 13 = CHR ''-'' \<and>
      list_all is_hex (take 4 (drop 14 s)) \<and> s ! 18 = CHR ''-'' \<and>
      list_all is_hex (take 4 (drop 19 s)) \<and> s ! 23 = CHR ''-'' \<and>
      list_all is_hex (take 12 (drop 24 s)))"

fun show_nat :: "nat \<Rightarrow> string" where
  "show_nat n =
     (if n < 10 then [char_of (48 + n)]
      else show_nat (n div 10) @ [char_of (48 + n mod 10)])"

declare show_nat.simps [simp del]

section \<open>Validation schemas\<close>

text \<open>
  A field parser returns the parsed value or the message of its issue. The fields of
  \<^verbatim>\<open>departmentSchema\<close>, in the order of the source.
\<close>

definition parse_name :: "jsval \<Rightarrow> string option + string" where
  "parse_name v =
     (case v of
        Str s \<Rightarrow>
          if length s < 1 then Inl (Some ''Name is required'')
          else if length s > 100 then Inl (Some ''Name must be less than 100 characters'')
          else Inr (trim s)
      | _ \<Rightarrow> Inl None)"

text \<open>
  \<^verbatim>\<open>z.string().uuid(msg).nullable().optional()\<close>: the outer \<open>option\<close> is
  \<^verbatim>\<open>undefined\<close>, the inner one \<^verbatim>\<open>null\<close>.
\<close>

definition parse_optional_uuid :: "string \<Rightarrow> jsval \<Rightarrow> string option + string option option" where
  "parse_optional_uuid msg v =
     (case v of
        Undefined \<Rightarrow> Inr None
      | Null \<Rightarrow> Inr (Some None)
      | Str s \<Rightarrow> if is_uuid s then Inr (Some (Some s)) else Inl (Some msg)
      | _ \<Rightarrow> Inl None)"

definition parse_isActive :: "jsval \<Rightarrow> string option + bool" where
  "parse_isActive v =
     (case v of Undefined \<Rightarrow> Inr True | Bool b \<Rightarrow> Inr b | _ \<Rightarrow> Inl None)"

text \<open>The transform \<^verbatim>\<open>val => val?.trim() || null\<close> runs on whatever the string schema accepted.\<close>

definition parse_description :: "jsval \<Rightarrow> string option + string option" where
  "parse_description v =
     (case v of
        Undefined \<Rightarrow> Inr None
      | Null \<Rightarrow> Inr None
      | Str s \<Rightarrow>
          if length s > 500 then Inl (Some ''Description must be less than 500 characters'')
          else Inr (if trim s = [] then None else Some (trim s))
      | _ \<Rightarrow> Inl None)"

definition issue :: "string \<Rightarrow> string option + 'a \<Rightarrow> zod_issue list" where
  "issue path r = (case r of Inl m \<Rightarrow> [(path, m)] | Inr _ \<Rightarrow> [])"

text \<open>The payload of create and update: an object with these keys (other keys are stripped).\<close>

record department_input =
  in_name :: jsval
  in_managerId :: jsval
  in_parentId :: jsval
  in_isActive :: jsval
  in_description :: jsval

record department_data =
  c_name :: string
  c_managerId :: "string option option"
  c_parentId :: "string option option"
  c_isActive :: bool
  c_description :: "string option"

definition departmentSchema_parse :: "department_input \<Rightarrow> error + department_data" where
  "departmentSchema_parse d =
     (let n = parse_name (in_name d);
          m = parse_optional_uuid ''Invalid manager ID'' (in_managerId d);
          q = parse_optional_uuid ''Invalid parent department ID'' (in_parentId d);
          a = parse_isActive (in_isActive d);
          t = parse_description (in_description d)
      in case (n, m, q, a, t) of
           (Inr n', Inr m', Inr q', Inr a', Inr t') \<Rightarrow>
             Inr \<lparr>c_name = n', c_managerId = m', c_parentId = q', c_isActive = a',
                  c_description = t'\<rparr>
         | _ \<Rightarrow>
             Inl (ZodError (issue ''name'' n @ issue ''managerId'' m @ issue ''parentId'' q @
                            issue ''isActive'' a @ issue ''description'' t)))"

text \<open>
  \<^verbatim>\<open>departmentSchema.partial()\<close> wraps every field in an optional schema, which
  answers \<^verbatim>\<open>undefined\<close> for an absent key before the wrapped schema (its default,
  its transform) is consulted. This is the optional wrapper of Zod 3; the sources do not
  pin the release of the library. (A wrapper that ran the default of \<^verbatim>\<open>isActive\<close>
  and the transform of \<^verbatim>\<open>description\<close> on an absent key would make every update
  write those two fields.) The route's own update schema spells the same reading out,
  field by field: \<^verbatim>\<open>isActive: z.boolean().optional()\<close>, with no default.
\<close>

definition partial :: "(jsval \<Rightarrow> string option + 'a) \<Rightarrow> jsval \<Rightarrow> string option + 'a option" where
  "partial f v = (case v of Undefined \<Rightarrow> Inr None | _ \<Rightarrow> map_sum (\<lambda>m. m) Some (f v))"

record department_update =
  u_name :: "string option"
  u_managerId :: "string option option"
  u_parentId :: "string option option"
  u_isActive :: "bool option"
  u_description :: "string option option"

definition updateDepartmentSchema_parse :: "department_input \<Rightarrow> error + department_update" where
  "updateDepartmentSchema_parse d =
     (let n = partial parse_name (in_name d);
          m = parse_optional_uuid ''Invalid manager ID'' (in_managerId d);
          q = parse_optional_uuid ''Invalid parent department ID'' (in_parentId d);
          a = partial parse_isActive (in_isActive d);
          t = partial parse_description (in_description d)
      in case (n, m, q, a, t) of
           (Inr n', Inr m', Inr q', Inr a', Inr t') \<Rightarrow>
             Inr \<lparr>u_name = n', u_managerId = m', u_parentId = q', u_isActive = a',
                  u_description = t'\<rparr>
         | _ \<Rightarrow>
             Inl (ZodError (issue ''name'' n @ issue ''managerId'' m @ issue ''parentId'' q @
                            issue ''isActive'' a @ issue ''description'' t)))"

datatype sort_field = SortName | SortCreatedAt | SortUpdatedAt

datatype sort_order = Asc | Desc

definition parse_userRole :: "jsval \<Rightarrow> string option + string" where
  "parse_userRole v = (case v of Str s \<Rightarrow> Inr s | _ \<Rightarrow> Inl None)"

definition parse_page :: "jsval \<Rightarrow> string option + int" where
  "parse_page v =
     (case v of
        Undefined \<Rightarrow> Inr 1
      | Num n \<Rightarrow> if n < 1 then Inl (Some ''Page must be at least 1'') else Inr n
      | _ \<Rightarrow> Inl None)"

definition parse_limit :: "jsval \<Rightarrow> string option + int" where
  "parse_limit v =
     (case v of
        Undefined \<Rightarrow> Inr 10
      | Num n \<Rightarrow>
          if n < 1 then Inl (Some ''Limit must be at least 1'')
          else if n > 100 then Inl (Some ''Limit cannot exceed 100'')
          else Inr n
      | _ \<Rightarrow> Inl None)"

definition parse_optional_boolean :: "jsval \<Rightarrow> string option + bool option" where
  "parse_optional_boolean v =
     (case v of Undefined \<Rightarrow> Inr None | Bool b \<Rightarrow> Inr (Some b) | _ \<Rightarrow> Inl None)"

definition parse_search :: "jsval \<Rightarrow> string option + string option" where
  "parse_search v =
     (case v of
        Undefined \<Rightarrow> Inr None
      | Str s \<Rightarrow> if length s < 1 then Inl (Some ''Search term must not be empty'') else Inr (Some s)
      | _ \<Rightarrow> Inl None)"

definition parse_sortBy :: "jsval \<Rightarrow> string option + sort_field" where
  "parse_sortBy v =
     (case v of
        Undefined \<Rightarrow> Inr SortName
      | Str s \<Rightarrow>
          if s = ''name'' then Inr SortName
          else if s = ''createdAt'' then Inr SortCreatedAt
          else if s = ''updatedAt'' then Inr SortUpdatedAt
          else Inl None
      | _ \<Rightarrow> Inl None)"

definition parse_sortOrder :: "jsval \<Rightarrow> string option + sort_order" where
  "parse_sortOrder v =
     (case v of
        Undefined \<Rightarrow> Inr Asc
      | Str s \<Rightarrow> if s = ''asc'' then Inr Asc else if s = ''desc'' then Inr Desc else Inl None
      | _ \<Rightarrow> Inl None)"

record list_input =
  q_userRole :: jsval
  q_page :: jsval
  q_limit :: jsval
  q_isActive :: jsval
  q_parentId :: jsval
  q_search :: jsval
  q_sortBy :: jsval
  q_sortOrder :: jsval

record list_params =
  userRole :: string
  page :: int
  limit :: int
  isActive_filter :: "bool option"
  parentId_filter :: "string option option"
  search :: "string option"
  sortBy :: sort_field
  sortOrder :: sort_order

definition getDepartmentsSchema_parse :: "list_input \<Rightarrow> error + list_params" where
  "getDepartmentsSchema_parse q =
     (let r = parse_userRole (q_userRole q);
          g = parse_page (q_page q);
          l = parse_limit (q_limit q);
          a = parse_optional_boolean (q_isActive q);
          i = parse_optional_uuid ''Invalid parent department ID'' (q_parentId q);
          s = parse_search (q_search q);
          b = parse_sortBy (q_sortBy q);
          d = parse_sortOrder (q_sortOrder q)
      in case (r, g, l, a, i, s, b, d) of
           (Inr r', Inr g', Inr l', Inr a', Inr i', Inr s', Inr b', Inr d') \<Rightarrow>
             Inr \<lparr>userRole = r', page = g', limit = l', isActive_filter = a',
                  parentId_filter = i', search = s', sortBy = b', sortOrder = d'\<rparr>
         | _ \<Rightarrow>
             Inl (ZodError (issue ''userRole'' r @ issue ''page'' g @ issue ''limit'' l @
                            issue ''isActive'' a @ issue ''parentId'' i @ issue ''search'' s @
                            issue ''sortBy'' b @ issue ''sortOrder'' d)))"

subsection \<open>The list schema of the route\<close>

text \<open>
  The repository validates a list request a second time: the route
  \<^verbatim>\<open>GET /\<close> of \<^verbatim>\<open>src/routes/departmentRoutes.js\<close> parses the query string with
  its own \<^verbatim>\<open>listDepartmentsSchema\<close>. Its \<^verbatim>\<open>limit\<close>, \<^verbatim>\<open>sortBy\<close> and
  \<^verbatim>\<open>sortOrder\<close> wrap the very field schemas of \<^verbatim>\<open>getDepartmentsSchema\<close>: the
  first in a \<^verbatim>\<open>z.preprocess\<close> step, the other two in \<^verbatim>\<open>.catch\<close>.

  \<^verbatim>\<open>parseInt(val, 10)\<close>: leading white space, an optional sign, then the longest run
  of decimal digits; \<open>None\<close> is \<^verbatim>\<open>NaN\<close>.
\<close>

definition is_digit :: "char \<Rightarrow> bool" where
  "is_digit c = (c \<in> set ''0123456789'')"

definition digit_value :: "char \<Rightarrow> int" where
  "digit_value c = int (of_char c) - 48"

definition parseInt :: "string \<Rightarrow> int option" where
  "parseInt s =
     (let t = dropWhile is_space s;
          signed = (t \<noteq> [] \<and> (hd t = CHR ''-'' \<or> hd t = CHR ''+''));
          ds = takeWhile is_digit (if signed then tl t else t);
          n = foldl (\<lambda>a c. 10 * a + digit_value c) 0 ds
      in if ds = [] then None
         else Some (if signed \<and> hd t = CHR ''-'' then - n else n))"

text \<open>
  The preprocess step of \<^verbatim>\<open>limit\<close>: a non-blank string is read as a number and
  brought into the range with \<^verbatim>\<open>Math.min(Math.max(num, 1), 100)\<close>; anything else is 10.
\<close>

definition limit_preprocess :: "jsval \<Rightarrow> jsval" where
  "limit_preprocess val =
     (case val of
        Str s \<Rightarrow>
          if trim s \<noteq> [] then
            (case parseInt s of None \<Rightarrow> Num 10 | Some num \<Rightarrow> Num (min (max num 1) 100))
          else Num 10
      | _ \<Rightarrow> Num 10)"

definition listDepartmentsSchema_limit :: "jsval \<Rightarrow> string option + int" where
  "listDepartmentsSchema_limit val = parse_limit (limit_preprocess val)"

text \<open>\<^verbatim>\<open>schema.catch(fallback)\<close>: the fallback stands in where the schema has an issue.\<close>

definition zod_catch :: "'a \<Rightarrow> (jsval \<Rightarrow> string option + 'a) \<Rightarrow> jsval \<Rightarrow> string option + 'a" where
  "zod_catch fallback f val = (case f val of Inl _ \<Rightarrow> Inr fallback | Inr x \<Rightarrow> Inr x)"

definition listDepartmentsSchema_sortBy :: "jsval \<Rightarrow> string option + sort_field" where
  "listDepartmentsSchema_sortBy = zod_catch SortName parse_sortBy"

definition listDepartmentsSchema_sortOrder :: "jsval \<Rightarrow> string option + sort_order" where
  "listDepartmentsSchema_sortOrder = zod_catch Asc parse_sortOrder"

subsection \<open>Authorization\<close>

definition checkAuthorization :: "string \<Rightarrow> string list \<Rightarrow> error option" where
  "checkAuthorization role requiredRoles =
     (if role \<in> set requiredRoles then None
      else Some (UnauthorizedError ''Insufficient permissions''))"

section \<open>The Prisma client\<close>

text \<open>
  Every call of the client is named by a \<open>db_call\<close>. The client state holds the
  tables, the calls that throw (\<open>failing\<close>, the repository errors the service
  catches), the database's \<^verbatim>\<open>ORDER BY\<close> (\<open>ordered\<close>, a parameter: the
  timestamps and the collation are the database's), and the log of the calls issued so
  far (\<open>queries\<close>). A call that throws is logged too: it was issued.
\<close>

datatype db_call =
    Department_findUnique string
  | Department_findUnique_parentId string
  | Department_findUnique_dependents string
  | Department_findFirst_name string "string option"
  | Department_findFirst_active string
  | Employee_findFirst_active string
  | Department_create
  | Department_update string
  | Department_findMany
  | Department_count

datatype 'a reply = Throws | Returns 'a

record prisma =
  data :: database
  failing :: "db_call \<Rightarrow> bool"
  ordered :: "sort_field \<Rightarrow> sort_order \<Rightarrow> department list \<Rightarrow> department list"
  queries :: "db_call list"

definition logged :: "db_call \<Rightarrow> prisma \<Rightarrow> prisma" where
  "logged c p = p\<lparr>queries := queries p @ [c]\<rparr>"

definition find_department :: "prisma \<Rightarrow> string \<Rightarrow> department option" where
  "find_department p i = find (\<lambda>d. dept_id d = i) (departments (data p))"

text \<open>
  \<^verbatim>\<open>prisma.department.findUnique({ where: { id }, select: { parentId: true } })\<close>:
  the call throws, finds no row, or returns the row's \<open>parentId\<close>.
\<close>

definition select_parentId :: "prisma \<Rightarrow> string \<Rightarrow> string option option reply" where
  "select_parentId p i =
     (if failing p (Department_findUnique_parentId i) then Throws
      else Returns (map_option parentId (find_department p i)))"

definition department_findUnique_parentId ::
  "string \<Rightarrow> prisma \<Rightarrow> string option option reply \<times> prisma" where
  "department_findUnique_parentId i p =
     (select_parentId p i, logged (Department_findUnique_parentId i) p)"

section \<open>The cycle check\<close>

definition maxDepth :: nat where
  "maxDepth = 50"

text \<open>
  The \<^verbatim>\<open>while (currentParentId && depth < maxDepth)\<close> loop of
  \<^verbatim>\<open>checkCircularReference\<close>. A string is truthy when it is not empty;
  \<open>null\<close> is falsy. \<open>break\<close> leaves the loop for the final
  \<^verbatim>\<open>return false\<close>.
\<close>

function checkCircularReference_loop ::
  "string option \<Rightarrow> string set \<Rightarrow> nat \<Rightarrow> prisma \<Rightarrow> bool \<times> prisma" where
  "checkCircularReference_loop currentParentId visitedIds depth p =
     (case currentParentId of
        None \<Rightarrow> (False, p)
      | Some c \<Rightarrow>
          if c \<noteq> [] \<and> depth < maxDepth then
            if c \<in> visitedIds then (True, p)
            else
              (case department_findUnique_parentId c p of
                 (Throws, p') \<Rightarrow> (False, p')
               | (Returns None, p') \<Rightarrow> (False, p')
               | (Returns (Some parent), p') \<Rightarrow>
                   checkCircularReference_loop parent (insert c visitedIds) (depth + 1) p')
          else (False, p))"
  by pat_completeness auto
termination
  by (relation "measure (\<lambda>(c, v, depth, p). maxDepth - depth)") auto

declare checkCircularReference_loop.simps [simp del]

definition checkCircularReference :: "string \<Rightarrow> string \<Rightarrow> prisma \<Rightarrow> bool \<times> prisma" where
  "checkCircularReference departmentId newParentId p =
     (if departmentId = newParentId then (True, p)
      else checkCircularReference_loop (Some newParentId) {departmentId} 0 p)"

text \<open>
  The stored parent chains, for stating properties of the walk: \<open>walks p cur cs e\<close>
  says that, starting with \<open>currentParentId = cur\<close>, the nodes \<open>cs\<close> are looked
  up one after the other, each a non-empty id whose row is found, and that the last row's
  \<open>parentId\<close> is \<open>e\<close>.
\<close>

fun walks :: "prisma \<Rightarrow> string option \<Rightarrow> string list \<Rightarrow> string option \<Rightarrow> bool" where
  "walks p cur [] e = (cur = e)"
| "walks p cur (c # cs) e =
     (cur = Some c \<and> c \<noteq> [] \<and>
      (case select_parentId p c of
         Returns (Some parent) \<Rightarrow> walks p parent cs e
       | _ \<Rightarrow> False))"

section \<open>The queries of the service\<close>

definition department_findUnique :: "string \<Rightarrow> prisma \<Rightarrow> department option reply \<times> prisma" where
  "department_findUnique i p =
     (if failing p (Department_findUnique i) then Throws else Returns (find_department p i),
      logged (Department_findUnique i) p)"

text \<open>
  \<^verbatim>\<open>findFirst({ where: { name: { equals: name, mode: 'insensitive' }, NOT: { id } } })\<close>;
  create leaves the \<^verbatim>\<open>NOT\<close> out (\<open>None\<close>).
\<close>

definition department_findFirst_name ::
  "string \<Rightarrow> string option \<Rightarrow> prisma \<Rightarrow> department option reply \<times> prisma" where
  "department_findFirst_name n excluded p =
     (if failing p (Department_findFirst_name n excluded) then Throws
      else Returns (find (\<lambda>d. equals_insensitive (name d) n \<and> Some (dept_id d) \<noteq> excluded)
                      (departments (data p))),
      logged (Department_findFirst_name n excluded) p)"

definition department_findFirst_active ::
  "string \<Rightarrow> prisma \<Rightarrow> department option reply \<times> prisma" where
  "department_findFirst_active i p =
     (if failing p (Department_findFirst_active i) then Throws
      else Returns (find (\<lambda>d. dept_id d = i \<and> isActive d) (departments (data p))),
      logged (Department_findFirst_active i) p)"

definition employee_findFirst_active ::
  "string \<Rightarrow> prisma \<Rightarrow> employee option reply \<times> prisma" where
  "employee_findFirst_active i p =
     (if failing p (Employee_findFirst_active i) then Throws
      else Returns (find (\<lambda>e. emp_id e = i \<and> employmentStatus e = ''ACTIVE'') (employees (data p))),
      logged (Employee_findFirst_active i) p)"

text \<open>
  Modelled from the spec: the Prisma schema with the relations of a department is not
  among the sources. A dependent is an employee, child department or position whose
  \<open>departmentId\<close> / \<open>parentId\<close> references the department.
\<close>

definition active_employees :: "prisma \<Rightarrow> string \<Rightarrow> employee list" where
  "active_employees p i =
     filter (\<lambda>e. emp_departmentId e = Some i \<and> employmentStatus e = ''ACTIVE'') (employees (data p))"

definition active_children :: "prisma \<Rightarrow> string \<Rightarrow> department list" where
  "active_children p i = filter (\<lambda>c. parentId c = Some i \<and> isActive c) (departments (data p))"

definition active_positions :: "prisma \<Rightarrow> string \<Rightarrow> position list" where
  "active_positions p i =
     filter (\<lambda>q. pos_departmentId q = Some i \<and> pos_isActive q) (positions (data p))"

text \<open>
  The \<^verbatim>\<open>findUnique\<close> of \<^verbatim>\<open>deleteDepartment\<close>, which includes the active
  employees, children and positions.
\<close>

definition department_findUnique_dependents ::
  "string \<Rightarrow> prisma \<Rightarrow>
   (department \<times> employee list \<times> department list \<times> position list) option reply \<times> prisma" where
  "department_findUnique_dependents i p =
     (if failing p (Department_findUnique_dependents i) then Throws
      else Returns (map_option
             (\<lambda>d. (d, active_employees p i, active_children p i, active_positions p i))
             (find_department p i)),
      logged (Department_findUnique_dependents i) p)"

text \<open>The \<^verbatim>\<open>data\<close> of an update: a field that is \<open>None\<close> is not in the object.\<close>

record department_patch =
  p_name :: "string option"
  p_managerId :: "string option option"
  p_parentId :: "string option option"
  p_isActive :: "bool option"
  p_description :: "string option option"

definition apply_patch :: "department_patch \<Rightarrow> department \<Rightarrow> department" where
  "apply_patch u d =
     d\<lparr>name := (case p_name u of None \<Rightarrow> name d | Some n \<Rightarrow> n),
       managerId := (case p_managerId u of None \<Rightarrow> managerId d | Some m \<Rightarrow> m),
       parentId := (case p_parentId u of None \<Rightarrow> parentId d | Some q \<Rightarrow> q),
       isActive := (case p_isActive u of None \<Rightarrow> isActive d | Some a \<Rightarrow> a),
       description := (case p_description u of None \<Rightarrow> description d | Some t \<Rightarrow> t)\<rparr>"

text \<open>
  \<^verbatim>\<open>prisma.department.update({ where: { id }, data })\<close> throws when no row has the id;
  otherwise it writes the row and returns it (the \<^verbatim>\<open>include\<close> of manager and
  parent, which only decorates the returned object, is left out here and in create).
\<close>

definition department_update ::
  "string \<Rightarrow> department_patch \<Rightarrow> prisma \<Rightarrow> department reply \<times> prisma" where
  "department_update i u p =
     (case (if failing p (Department_update i) then None else find_department p i) of
        None \<Rightarrow> (Throws, logged (Department_update i) p)
      | Some d \<Rightarrow>
          (Returns (apply_patch u d),
           logged (Department_update i)
             (p\<lparr>data := (data p)\<lparr>departments :=
                  map (\<lambda>r. if dept_id r = i then apply_patch u r else r) (departments (data p))\<rparr>\<rparr>)))"

text \<open>
  \<^verbatim>\<open>prisma.department.create({ data })\<close>. The id of the new row is the repository's
  choice, here the parameter \<open>newId\<close>; an id that is taken makes the call throw.
\<close>

definition department_create ::
  "string \<Rightarrow> department_data \<Rightarrow> prisma \<Rightarrow> department reply \<times> prisma" where
  "department_create newId v p =
     (if failing p Department_create \<or> find_department p newId \<noteq> None
      then (Throws, logged Department_create p)
      else
        (let d = \<lparr>dept_id = newId, name = c_name v, description = c_description v,
                  isActive = c_isActive v,
                  managerId = (case c_managerId v of Some m \<Rightarrow> m | None \<Rightarrow> None),
                  parentId = (case c_parentId v of Some q \<Rightarrow> q | None \<Rightarrow> None)\<rparr>
         in (Returns d,
             logged Department_create
               (p\<lparr>data := (data p)\<lparr>departments := departments (data p) @ [d]\<rparr>\<rparr>))))"

record department_where =
  w_isActive :: "bool option"
  w_parentId :: "string option"
  w_search :: "string option"

definition matches :: "department_where \<Rightarrow> department \<Rightarrow> bool" where
  "matches w d =
     ((case w_isActive w of None \<Rightarrow> True | Some a \<Rightarrow> isActive d = a) \<and>
      (case w_parentId w of None \<Rightarrow> True | Some q \<Rightarrow> parentId d = Some q) \<and>
      (case w_search w of
         None \<Rightarrow> True
       | Some s \<Rightarrow>
           contains_insensitive (name d) s \<or>
           (case description d of None \<Rightarrow> False | Some t \<Rightarrow> contains_insensitive t s)))"

definition department_findMany ::
  "department_where \<Rightarrow> sort_field \<times> sort_order \<Rightarrow> int \<Rightarrow> int \<Rightarrow> prisma \<Rightarrow>
   department list reply \<times> prisma" where
  "department_findMany w orderBy skip tk p =
     (if failing p Department_findMany then Throws
      else Returns (take (nat tk) (drop (nat skip)
             (ordered p (fst orderBy) (snd orderBy) (filter (matches w) (departments (data p)))))),
      logged Department_findMany p)"

definition department_count :: "department_where \<Rightarrow> prisma \<Rightarrow> int reply \<times> prisma" where
  "department_count w p =
     (if failing p Department_count then Throws
      else Returns (int (length (filter (matches w) (departments (data p))))),
      logged Department_count p)"

section \<open>Listing departments\<close>

record pagination =
  pg_page :: int
  pg_limit :: int
  pg_total :: int
  pg_pages :: int
  hasNext :: bool
  hasPrev :: bool

record department_page =
  pg_departments :: "department list"
  pg_pagination :: pagination

text \<open>
  \<^verbatim>\<open>Math.ceil(total / limit)\<close>, on the integers that a row count and a validated
  limit are.
\<close>

definition ceil_div :: "int \<Rightarrow> int \<Rightarrow> int" where
  "ceil_div t l = \<lceil>real_of_int t / real_of_int l\<rceil>"

definition build_where :: "list_params \<Rightarrow> department_where" where
  "build_where v =
     \<lparr>w_isActive = isActive_filter v,
      w_parentId = (case parentId_filter v of Some (Some q) \<Rightarrow> if truthy q then Some q else None
                    | _ \<Rightarrow> None),
      w_search = (case search v of Some s \<Rightarrow> if truthy s then Some s else None | None \<Rightarrow> None)\<rparr>"

text \<open>
  The \<^verbatim>\<open>try\<close> block of \<^verbatim>\<open>getDepartments\<close>: both queries of the
  \<^verbatim>\<open>Promise.all\<close> are issued; either one throwing fails the call.
\<close>

definition getDepartments_query :: "list_params \<Rightarrow> prisma \<Rightarrow> (error + department_page) \<times> prisma" where
  "getDepartments_query v p =
     (let skip = (page v - 1) * limit v;
          w = build_where v;
          orderBy = (sortBy v, sortOrder v)
      in case department_findMany w orderBy skip (limit v) p of
           (rows, p1) \<Rightarrow>
             (case department_count w p1 of
                (cnt, p2) \<Rightarrow>
                  (case (rows, cnt) of
                     (Returns ds, Returns t) \<Rightarrow>
                       (Inr \<lparr>pg_departments = ds,
                             pg_pagination =
                               \<lparr>pg_page = page v, pg_limit = limit v, pg_total = t,
                                pg_pages = ceil_div t (limit v),
                                hasNext = (page v < ceil_div t (limit v)),
                                hasPrev = (page v > 1)\<rparr>\<rparr>, p2)
                   | _ \<Rightarrow> (Inl PrismaError, p2))))"

definition getDepartments :: "list_input \<Rightarrow> prisma \<Rightarrow> (error + department_page) \<times> prisma" where
  "getDepartments params p =
     (case getDepartmentsSchema_parse params of
        Inl e \<Rightarrow> (Inl e, p)
      | Inr v \<Rightarrow>
          (case checkAuthorization (userRole v) [''ADMIN'', ''HR'', ''MANAGER''] of
             Some e \<Rightarrow> (Inl e, p)
           | None \<Rightarrow>
               (case getDepartments_query v p of
                  (Inl e, p') \<Rightarrow> (Inl (Error ''Failed to fetch departments''), p')
                | (Inr r, p') \<Rightarrow> (Inr r, p'))))"

section \<open>Creating, updating and deleting a department\<close>

text \<open>
  The checks return the error they throw, if any. \<^verbatim>\<open>if (managerId)\<close> and
  \<^verbatim>\<open>if (parentId)\<close> test for a non-empty string.
\<close>

definition validateManager :: "string option option \<Rightarrow> prisma \<Rightarrow> error option \<times> prisma" where
  "validateManager m p =
     (case m of
        Some (Some i) \<Rightarrow>
          if truthy i then
            (case employee_findFirst_active i p of
               (Throws, p') \<Rightarrow> (Some PrismaError, p')
             | (Returns None, p') \<Rightarrow> (Some (ValidationError ''Manager not found or not active''), p')
             | (Returns (Some manager), p') \<Rightarrow> (None, p'))
          else (None, p)
      | _ \<Rightarrow> (None, p))"

definition validateParent :: "string \<Rightarrow> prisma \<Rightarrow> error option \<times> prisma" where
  "validateParent i p =
     (case department_findFirst_active i p of
        (Throws, p') \<Rightarrow> (Some PrismaError, p')
      | (Returns None, p') \<Rightarrow>
          (Some (ValidationError ''Parent department not found or not active''), p')
      | (Returns (Some parent), p') \<Rightarrow> (None, p'))"

definition createDepartment_try ::
  "string \<Rightarrow> department_data \<Rightarrow> prisma \<Rightarrow> (error + department) \<times> prisma" where
  "createDepartment_try newId v p =
     (case department_findFirst_name (c_name v) None p of
        (Throws, p1) \<Rightarrow> (Inl PrismaError, p1)
      | (Returns (Some existingDepartment), p1) \<Rightarrow>
          (Inl (ValidationError ''Department name already exists''), p1)
      | (Returns None, p1) \<Rightarrow>
          (case validateManager (c_managerId v) p1 of
             (Some e, p2) \<Rightarrow> (Inl e, p2)
           | (None, p2) \<Rightarrow>
               (case (case c_parentId v of
                        Some (Some q) \<Rightarrow> if truthy q then validateParent q p2 else (None, p2)
                      | _ \<Rightarrow> (None, p2)) of
                  (Some e, p3) \<Rightarrow> (Inl e, p3)
                | (None, p3) \<Rightarrow>
                    (case department_create newId v p3 of
                       (Throws, p4) \<Rightarrow> (Inl PrismaError, p4)
                     | (Returns d, p4) \<Rightarrow> (Inr d, p4)))))"

definition createDepartment ::
  "string \<Rightarrow> department_input \<Rightarrow> string \<Rightarrow> prisma \<Rightarrow> (error + department) \<times> prisma" where
  "createDepartment newId input role p =
     (case checkAuthorization role [''ADMIN'', ''HR''] of
        Some e \<Rightarrow> (Inl e, p)
      | None \<Rightarrow>
          (case departmentSchema_parse input of
             Inl e \<Rightarrow> (Inl e, p)
           | Inr v \<Rightarrow>
               (case createDepartment_try newId v p of
                  (Inl (ValidationError m), p') \<Rightarrow> (Inl (ValidationError m), p')
                | (Inl e, p') \<Rightarrow> (Inl (Error ''Failed to create department''), p')
                | (Inr d, p') \<Rightarrow> (Inr d, p'))))"

text \<open>
  The name check of \<^verbatim>\<open>updateDepartment\<close>:
  \<^verbatim>\<open>if (name && name !== existingDepartment.name)\<close>.
\<close>

definition update_checkName ::
  "string \<Rightarrow> string option \<Rightarrow> department \<Rightarrow> prisma \<Rightarrow> error option \<times> prisma" where
  "update_checkName i n existingDepartment p =
     (case n of
        Some n' \<Rightarrow>
          if truthy n' \<and> n' \<noteq> name existingDepartment then
            (case department_findFirst_name n' (Some i) p of
               (Throws, p') \<Rightarrow> (Some PrismaError, p')
             | (Returns (Some nameConflict), p') \<Rightarrow>
                 (Some (ValidationError ''Department name already exists''), p')
             | (Returns None, p') \<Rightarrow> (None, p'))
          else (None, p)
      | None \<Rightarrow> (None, p))"

text \<open>
  The parent check of \<^verbatim>\<open>updateDepartment\<close>:
  \<^verbatim>\<open>if (parentId !== undefined) { if (parentId) { ... } }\<close>.
\<close>

definition update_checkParent ::
  "string \<Rightarrow> string option option \<Rightarrow> prisma \<Rightarrow> error option \<times> prisma" where
  "update_checkParent i q p =
     (case q of
        Some (Some q') \<Rightarrow>
          if truthy q' then
            (case validateParent q' p of
               (Some e, p1) \<Rightarrow> (Some e, p1)
             | (None, p1) \<Rightarrow>
                 (case checkCircularReference i q' p1 of
                    (hasCircularRef, p2) \<Rightarrow>
                      if hasCircularRef
                      then (Some (ValidationError ''Cannot create circular parent-child relationship''), p2)
                      else (None, p2)))
          else (None, p)
      | _ \<Rightarrow> (None, p))"

definition updateData :: "department_update \<Rightarrow> department_patch" where
  "updateData v =
     \<lparr>p_name = u_name v, p_managerId = u_managerId v, p_parentId = u_parentId v,
      p_isActive = u_isActive v, p_description = u_description v\<rparr>"

definition updateDepartment_try ::
  "string \<Rightarrow> department_update \<Rightarrow> prisma \<Rightarrow> (error + department) \<times> prisma" where
  "updateDepartment_try i v p =
     (case department_findUnique i p of
        (Throws, p1) \<Rightarrow> (Inl PrismaError, p1)
      | (Returns None, p1) \<Rightarrow> (Inl (NotFoundError ''Department not found''), p1)
      | (Returns (Some existingDepartment), p1) \<Rightarrow>
          (case update_checkName i (u_name v) existingDepartment p1 of
             (Some e, p2) \<Rightarrow> (Inl e, p2)
           | (None, p2) \<Rightarrow>
               (case validateManager (u_managerId v) p2 of
                  (Some e, p3) \<Rightarrow> (Inl e, p3)
                | (None, p3) \<Rightarrow>
                    (case update_checkParent i (u_parentId v) p3 of
                       (Some e, p4) \<Rightarrow> (Inl e, p4)
                     | (None, p4) \<Rightarrow>
                         (case department_update i (updateData v) p4 of
                            (Throws, p5) \<Rightarrow> (Inl PrismaError, p5)
                          | (Returns d, p5) \<Rightarrow> (Inr d, p5))))))"

text \<open>
  The \<^verbatim>\<open>catch\<close> of update and delete rethrows \<open>NotFoundError\<close> and
  \<open>ValidationError\<close> and replaces anything else.
\<close>

definition rethrow :: "string \<Rightarrow> error \<Rightarrow> error" where
  "rethrow msg e =
     (case e of NotFoundError m \<Rightarrow> NotFoundError m | ValidationError m \<Rightarrow> ValidationError m
      | _ \<Rightarrow> Error msg)"

definition updateDepartment ::
  "string \<Rightarrow> department_input \<Rightarrow> string \<Rightarrow> prisma \<Rightarrow> (error + department) \<times> prisma" where
  "updateDepartment i input role p =
     (if \<not> truthy i then (Inl (ValidationError ''Department ID is required''), p)
      else
        (case checkAuthorization role [''ADMIN'', ''HR''] of
           Some e \<Rightarrow> (Inl e, p)
         | None \<Rightarrow>
             (case updateDepartmentSchema_parse input of
                Inl e \<Rightarrow> (Inl e, p)
              | Inr v \<Rightarrow>
                  (case updateDepartment_try i v p of
                     (Inl e, p') \<Rightarrow> (Inl (rethrow ''Failed to update department'' e), p')
                   | (Inr d, p') \<Rightarrow> (Inr d, p')))))"

definition deactivation :: department_patch where
  "deactivation =
     \<lparr>p_name = None, p_managerId = Some None, p_parentId = None, p_isActive = Some False,
      p_description = None\<rparr>"

definition deleteDepartment_try :: "string \<Rightarrow> prisma \<Rightarrow> (error + department) \<times> prisma" where
  "deleteDepartment_try i p =
     (case department_findUnique_dependents i p of
        (Throws, p1) \<Rightarrow> (Inl PrismaError, p1)
      | (Returns None, p1) \<Rightarrow> (Inl (NotFoundError ''Department not found''), p1)
      | (Returns (Some (existingDepartment, emps, kids, poss)), p1) \<Rightarrow>
          if \<not> isActive existingDepartment
          then (Inl (ValidationError ''Department is already inactive''), p1)
          else if length emps > 0
          then (Inl (ValidationError (''Cannot delete department with '' @ show_nat (length emps) @
                  '' active employee(s). Please reassign employees first.'')), p1)
          else if length kids > 0
          then (Inl (ValidationError (''Cannot delete department with '' @ show_nat (length kids) @
                  '' active child department(s). Please reassign or delete child departments first.'')), p1)
          else if length poss > 0
          then (Inl (ValidationError (''Cannot delete department with '' @ show_nat (length poss) @
                  '' active position(s). Please reassign or delete positions first.'')), p1)
          else
            (case department_update i deactivation p1 of
               (Throws, p2) \<Rightarrow> (Inl PrismaError, p2)
             | (Returns d, p2) \<Rightarrow> (Inr d, p2)))"

definition deleteDepartment :: "string \<Rightarrow> string \<Rightarrow> prisma \<Rightarrow> (error + department) \<times> prisma" where
  "deleteDepartment i role p =
     (if \<not> truthy i then (Inl (ValidationError ''Department ID is required''), p)
      else
        (case checkAuthorization role [''ADMIN'', ''HR''] of
           Some e \<Rightarrow> (Inl e, p)
         | None \<Rightarrow>
             (case deleteDepartment_try i p of
                (Inl e, p') \<Rightarrow> (Inl (rethrow ''Failed to delete department'' e), p')
              | (Inr d, p') \<Rightarrow> (Inr d, p'))))"

section \<open>Notions for stating the properties\<close>

text \<open>
  The calls that validate a parent (the lookup of the active parent and the lookups of the
  cycle check), and the calls that write.
\<close>

definition parent_query :: "db_call \<Rightarrow> bool" where
  "parent_query c =
     (case c of Department_findFirst_active i \<Rightarrow> True | Department_findUnique_parentId i \<Rightarrow> True
      | _ \<Rightarrow> False)"

definition write_call :: "db_call \<Rightarrow> bool" where
  "write_call c = (case c of Department_update i \<Rightarrow> True | Department_create \<Rightarrow> True | _ \<Rightarrow> False)"

text \<open>
  \<open>extends_log ok p p'\<close>: the state \<open>p'\<close> is \<open>p\<close> with more calls logged, all of
  them satisfying \<open>ok\<close>; the tables are the same.
\<close>

definition extends_log :: "(db_call \<Rightarrow> bool) \<Rightarrow> prisma \<Rightarrow> prisma \<Rightarrow> bool" where
  "extends_log ok p p' = (\<exists>cs. p' = p\<lparr>queries := queries p @ cs\<rparr> \<and> list_all ok cs)"

text \<open>
  The error, if any, that the checks of \<^verbatim>\<open>updateDepartment\<close> throw before the write,
  read off the state the call starts in; and the condition that the checks before the
  parent check all pass.
\<close>

definition update_checks :: "string \<Rightarrow> department_update \<Rightarrow> prisma \<Rightarrow> error option" where
  "update_checks i v p =
     (if failing p (Department_findUnique i) then Some PrismaError
      else
        (case find_department p i of
           None \<Rightarrow> Some (NotFoundError ''Department not found'')
         | Some existingDepartment \<Rightarrow>
             (case fst (update_checkName i (u_name v) existingDepartment p) of
                Some e \<Rightarrow> Some e
              | None \<Rightarrow>
                  (case fst (validateManager (u_managerId v) p) of
                     Some e \<Rightarrow> Some e
                   | None \<Rightarrow> fst (update_checkParent i (u_parentId v) p)))))"

text \<open>The same for the checks of \<^verbatim>\<open>createDepartment\<close>.\<close>

definition create_checks :: "department_data \<Rightarrow> prisma \<Rightarrow> error option" where
  "create_checks v p =
     (if failing p (Department_findFirst_name (c_name v) None) then Some PrismaError
      else if find (\<lambda>d. equals_insensitive (name d) (c_name v)) (departments (data p)) \<noteq> None
      then Some (ValidationError ''Department name already exists'')
      else
        (case fst (validateManager (c_managerId v) p) of
           Some e \<Rightarrow> Some e
         | None \<Rightarrow>
             (case c_parentId v of
                Some (Some q) \<Rightarrow> if truthy q then fst (validateParent q p) else None
              | _ \<Rightarrow> None)))"

text \<open>The issues of \<^verbatim>\<open>getDepartmentsSchema\<close>, field by field.\<close>

definition list_issues :: "list_input \<Rightarrow> zod_issue list" where
  "list_issues q =
     issue ''userRole'' (parse_userRole (q_userRole q)) @
     issue ''page'' (parse_page (q_page q)) @
     issue ''limit'' (parse_limit (q_limit q)) @
     issue ''isActive'' (parse_optional_boolean (q_isActive q)) @
     issue ''parentId'' (parse_optional_uuid ''Invalid parent department ID'' (q_parentId q)) @
     issue ''search'' (parse_search (q_search q)) @
     issue ''sortBy'' (parse_sortBy (q_sortBy q)) @
     issue ''sortOrder'' (parse_sortOrder (q_sortOrder q))"

definition reaches_parent_check :: "string \<Rightarrow> department_update \<Rightarrow> string \<Rightarrow> prisma \<Rightarrow> bool" where
  "reaches_parent_check i v role p =
     (truthy i \<and> checkAuthorization role [''ADMIN'', ''HR''] = None \<and>
      \<not> failing p (Department_findUnique i) \<and>
      (case find_department p i of
         None \<Rightarrow> False
       | Some existingDepartment \<Rightarrow>
           fst (update_checkName i (u_name v) existingDepartment p) = None \<and>
           fst (validateManager (u_managerId v) p) = None))"

section \<open>Example states\<close>

text \<open>Concrete client states on which the theorems below are exercised.\<close>

definition no_faults :: "db_call \<Rightarrow> bool" where
  "no_faults c = False"

definition stored_order :: "sort_field \<Rightarrow> sort_order \<Rightarrow> department list \<Rightarrow> department list" where
  "stored_order f d rows = rows"

definition dept :: "string \<Rightarrow> string \<Rightarrow> string option \<Rightarrow> department" where
  "dept i n par = \<lparr>dept_id = i, name = n, description = None, isActive = True,
     managerId = None, parentId = par\<rparr>"

definition client :: "department list \<Rightarrow> employee list \<Rightarrow> position list \<Rightarrow> prisma" where
  "client ds es ps = \<lparr>data = \<lparr>departments = ds, employees = es, positions = ps\<rparr>,
     failing = no_faults, ordered = stored_order, queries = []\<rparr>"

definition chain_db :: prisma where
  "chain_db = client
     [dept ''A'' ''Alpha'' None, dept ''B'' ''Beta'' (Some ''A''), dept ''C'' ''Gamma'' (Some ''B''),
      dept ''D'' ''Delta'' None] [] []"

definition node :: "nat \<Rightarrow> string" where
  "node n = replicate (Suc n) CHR ''n''"

definition deep_row :: "nat \<Rightarrow> department" where
  "deep_row n = dept (node n) (node n) (Some (node (Suc n)))"

definition deep_db :: prisma where
  "deep_db = client (map deep_row [0..<51]) [] []"

definition orphan_db :: prisma where
  "orphan_db = client [dept ''A'' ''Alpha'' (Some ''M'')] [] []"

definition broken_db :: prisma where
  "broken_db = (client [dept ''A'' ''Alpha'' None] [] [])
     \<lparr>failing := (\<lambda>c. c = Department_findUnique_parentId ''A'')\<rparr>"

definition id_sales :: string where "id_sales = ''11111111-1111-4111-8111-111111111111''"
definition id_inside :: string where "id_inside = ''22222222-2222-4222-8222-222222222222''"
definition id_legacy :: string where "id_legacy = ''33333333-3333-4333-8333-333333333333''"
definition id_lab :: string where "id_lab = ''44444444-4444-4444-8444-444444444444''"
definition id_ann :: string where "id_ann = ''aaaaaaaa-aaaa-4aaa-8aaa-aaaaaaaaaaaa''"
definition id_bob :: string where "id_bob = ''bbbbbbbb-bbbb-4bbb-8bbb-bbbbbbbbbbbb''"

text \<open>
  An organisation: Sales (managed by Ann, with one active employee, one active child and
  one active position), its child Inside Sales (managed by Bob), the inactive Legacy, and
  Lab, which nothing references.
\<close>

definition sales_row :: department where
  "sales_row = (dept id_sales ''Sales'' None)\<lparr>managerId := Some id_ann\<rparr>"

definition inside_row :: department where
  "inside_row = (dept id_inside ''Inside Sales'' (Some id_sales))\<lparr>managerId := Some id_bob\<rparr>"

definition legacy_row :: department where
  "legacy_row = (dept id_legacy ''Legacy'' None)\<lparr>isActive := False\<rparr>"

definition lab_row :: department where
  "lab_row = (dept id_lab ''Lab'' None)\<lparr>managerId := Some id_ann\<rparr>"

definition org_db :: prisma where
  "org_db = client
     [sales_row, inside_row, legacy_row, lab_row]
     [\<lparr>emp_id = id_ann, employmentStatus = ''ACTIVE'', emp_departmentId = Some id_sales\<rparr>,
      \<lparr>emp_id = id_bob, employmentStatus = ''ACTIVE'', emp_departmentId = Some id_inside\<rparr>]
     [\<lparr>pos_id = ''55555555-5555-4555-8555-555555555555'', pos_isActive = True,
       pos_departmentId = Some id_sales\<rparr>]"

text \<open>A state with one department that is inactive, described and managed.\<close>

definition archived_row :: department where
  "archived_row = (dept id_legacy ''Legacy'' None)
     \<lparr>description := Some ''Retired'', isActive := False, managerId := Some id_ann\<rparr>"

definition archive_db :: prisma where
  "archive_db = client [archived_row] [] []"

definition no_change :: department_input where
  "no_change = \<lparr>in_name = Undefined, in_managerId = Undefined, in_parentId = Undefined,
     in_isActive = Undefined, in_description = Undefined\<rparr>"

definition unchanged :: department_update where
  "unchanged = \<lparr>u_name = None, u_managerId = None, u_parentId = None, u_isActive = None,
     u_description = None\<rparr>"

definition describe_only :: department_input where
  "describe_only = no_change\<lparr>in_description := Str ''  Field sales ''\<rparr>"


definition named :: "string \<Rightarrow> department_input" where
  "named n = no_change\<lparr>in_name := Str n\<rparr>"

definition eng_db :: prisma where
  "eng_db = client [(dept id_lab ''Engineering'' None)\<lparr>isActive := False\<rparr>] [] []"

definition plain :: "string \<Rightarrow> department_data" where
  "plain n = \<lparr>c_name = n, c_managerId = None, c_parentId = None, c_isActive = True,
     c_description = None\<rparr>"

definition list_query :: list_input where
  "list_query = \<lparr>q_userRole = Str ''MANAGER'', q_page = Undefined, q_limit = Undefined,
     q_isActive = Undefined, q_parentId = Undefined, q_search = Undefined,
     q_sortBy = Undefined, q_sortOrder = Undefined\<rparr>"

section \<open>Properties of the cycle check\<close>

text \<open>
  C1. A department proposed as its own parent is reported as a cycle at once: the
  result is \<open>True\<close> and the client state, its query log included, is the one the
  call started from, so the repository was not consulted.
\<close>

theorem checkCircularReference_self:
  "checkCircularReference X X p = (True, p)"
  by (simp add: checkCircularReference_def)

subsection \<open>The walk along a stored chain\<close>

lemma select_parentId_queries [simp]:
  "select_parentId (p\<lparr>queries := q\<rparr>) i = select_parentId p i"
  by (simp add: select_parentId_def find_department_def)

lemma walks_queries [simp]: "walks (p\<lparr>queries := q\<rparr>) cur cs e = walks p cur cs e"
  by (induction cs arbitrary: cur) (simp_all split: reply.splits option.splits)

lemma loop_walks:
  "walks p cur cs e \<Longrightarrow> distinct cs \<Longrightarrow> set cs \<inter> V = {} \<Longrightarrow> depth + length cs \<le> maxDepth \<Longrightarrow>
   checkCircularReference_loop cur V depth p =
   checkCircularReference_loop e (set cs \<union> V) (depth + length cs)
     (p\<lparr>queries := queries p @ map Department_findUnique_parentId cs\<rparr>)"
proof (induction cs arbitrary: cur V depth p)
  case Nil
  then show ?case by simp
next
  case (Cons c cs)
  from Cons.prems(1) obtain parent where cur: "cur = Some c" and ne: "c \<noteq> []"
    and sel: "select_parentId p c = Returns (Some parent)"
    and rest: "walks p parent cs e"
    by (auto split: reply.splits option.splits)
  from Cons.prems have fresh: "c \<notin> V" and d: "depth < maxDepth" by auto
  let ?p' = "logged (Department_findUnique_parentId c) p"
  have step: "checkCircularReference_loop cur V depth p =
      checkCircularReference_loop parent (insert c V) (depth + 1) ?p'"
    using cur ne sel fresh d
    by (subst checkCircularReference_loop.simps) (simp add: department_findUnique_parentId_def)
  have "checkCircularReference_loop parent (insert c V) (depth + 1) ?p' =
      checkCircularReference_loop e (set cs \<union> insert c V) (depth + 1 + length cs)
        (?p'\<lparr>queries := queries ?p' @ map Department_findUnique_parentId cs\<rparr>)"
    using Cons.prems rest by (intro Cons.IH) (auto simp: logged_def)
  with step show ?case by (simp add: logged_def)
qed


text \<open>
  C2. For a stored chain in which \<open>C\<close>'s parent is \<open>B\<close>, \<open>B\<close>'s parent is
  \<open>A\<close> and \<open>A\<close> has no parent (ids are non-empty strings and the three lookups
  answer), the check for making \<open>C\<close> the parent of \<open>A\<close> reports a cycle, and
  the check for making \<open>C\<close> the parent of a department \<open>D\<close> that is neither
  \<open>C\<close> nor one of its ancestors reports none.
\<close>

theorem chain_cycle_check:
  assumes "A \<noteq> []" "B \<noteq> []" "C \<noteq> []"
    and C: "select_parentId p C = Returns (Some (Some B))"
    and B: "select_parentId p B = Returns (Some (Some A))"
    and A: "select_parentId p A = Returns (Some None)"
  shows "fst (checkCircularReference A C p) \<and>
         (D \<notin> {A, B, C} \<longrightarrow> \<not> fst (checkCircularReference D C p))"
proof
  from A B C have neq: "A \<noteq> B" "B \<noteq> C" "A \<noteq> C" by auto
  have w: "walks p (Some C) [C, B] (Some A)"
    using assms by simp
  have "checkCircularReference_loop (Some C) {A} 0 p =
        checkCircularReference_loop (Some A) (set [C, B] \<union> {A}) (0 + length [C, B])
          (p\<lparr>queries := queries p @ map Department_findUnique_parentId [C, B]\<rparr>)"
    using w neq by (intro loop_walks) (auto simp: maxDepth_def)
  also have "fst \<dots> = True"
    using assms(1) by (subst checkCircularReference_loop.simps) (simp add: maxDepth_def)
  finally show "fst (checkCircularReference A C p)"
    using neq by (simp add: checkCircularReference_def)
next
  show "D \<notin> {A, B, C} \<longrightarrow> \<not> fst (checkCircularReference D C p)"
  proof
    assume D: "D \<notin> {A, B, C}"
    from A B C have neq: "A \<noteq> B" "B \<noteq> C" "A \<noteq> C" by auto
    have w: "walks p (Some C) [C, B, A] None"
      using assms by simp
    have "checkCircularReference_loop (Some C) {D} 0 p =
        checkCircularReference_loop None (set [C, B, A] \<union> {D}) (0 + length [C, B, A])
          (p\<lparr>queries := queries p @ map Department_findUnique_parentId [C, B, A]\<rparr>)"
      using w neq D by (intro loop_walks) (auto simp: maxDepth_def)
    also have "fst \<dots> = False"
      by (subst checkCircularReference_loop.simps) simp
    finally show "\<not> fst (checkCircularReference D C p)"
      using D by (simp add: checkCircularReference_def)
  qed
qed

theorem chain_cycle_check_witness:
  "fst (checkCircularReference ''A'' ''C'' chain_db) \<and>
   \<not> fst (checkCircularReference ''D'' ''C'' chain_db)"
  using chain_cycle_check [of "''A''" "''B''" "''C''" chain_db "''D''"]
  by (simp add: select_parentId_def find_department_def chain_db_def client_def dept_def no_faults_def)


text \<open>
  C3. The walk fails open. Let the walk from the proposed parent look up the nodes
  \<open>cs\<close>, all found, pairwise different and different from the department, and
  arrive at \<open>e\<close>. If \<open>cs\<close> has \<open>maxDepth = 50\<close> nodes, the depth bound
  stops the walk; if it has fewer and the next node \<open>m\<close> is one whose lookup finds
  no row or throws, the lookup stops it. In each case the answer is \<open>False\<close>, whatever
  lies beyond (also when \<open>e\<close> is the department itself, a cycle the bound hides).
\<close>

theorem cycle_check_fails_open:
  assumes walk: "walks p (Some newParent) cs e"
    and fresh: "distinct (departmentId # cs)"
    and stop: "length cs = maxDepth \<or>
       (length cs < maxDepth \<and>
        (\<exists>m. e = Some m \<and> m \<noteq> [] \<and> m \<notin> set (departmentId # cs) \<and>
             (select_parentId p m = Returns None \<or> select_parentId p m = Throws)))"
  shows "maxDepth = 50 \<and> \<not> fst (checkCircularReference departmentId newParent p)"
proof
  show "maxDepth = 50" by (simp add: maxDepth_def)
next
  let ?p' = "p\<lparr>queries := queries p @ map Department_findUnique_parentId cs\<rparr>"
  have ne: "departmentId \<noteq> newParent"
    using walk fresh stop by (cases cs) (auto simp: maxDepth_def)
  have len: "length cs \<le> maxDepth" using stop by auto
  have "checkCircularReference_loop (Some newParent) {departmentId} 0 p =
        checkCircularReference_loop e (set cs \<union> {departmentId}) (0 + length cs) ?p'"
    using walk fresh len by (intro loop_walks) auto
  moreover have "\<not> fst (checkCircularReference_loop e (set cs \<union> {departmentId}) (0 + length cs) ?p')"
    using stop
  proof
    assume "length cs = maxDepth"
    then show ?thesis
      by (subst checkCircularReference_loop.simps) (simp split: option.splits)
  next
    assume "length cs < maxDepth \<and>
        (\<exists>m. e = Some m \<and> m \<noteq> [] \<and> m \<notin> set (departmentId # cs) \<and>
             (select_parentId p m = Returns None \<or> select_parentId p m = Throws))"
    then obtain m where "e = Some m" "m \<noteq> []" "m \<notin> set (departmentId # cs)"
      "select_parentId p m = Returns None \<or> select_parentId p m = Throws" by blast
    then show ?thesis
      by (subst checkCircularReference_loop.simps)
         (auto simp: department_findUnique_parentId_def)
  qed
  ultimately show "\<not> fst (checkCircularReference departmentId newParent p)"
    using ne by (simp add: checkCircularReference_def)
qed


lemma node_inj [simp]: "node i = node j \<longleftrightarrow> i = j"
  by (auto simp: node_def dest: arg_cong [where f = length])

lemma find_deep_row:
  "m \<le> k \<Longrightarrow> k < n \<Longrightarrow> find (\<lambda>d. dept_id d = node k) (map deep_row [m..<n]) = Some (deep_row k)"
proof (induction "k - m" arbitrary: m)
  case 0
  then show ?case by (simp add: upt_conv_Cons deep_row_def dept_def)
next
  case (Suc x)
  then have "m < k" "Suc m \<le> k" "x = k - Suc m" by auto
  with Suc show ?case by (simp add: upt_conv_Cons deep_row_def dept_def)
qed

lemma deep_select:
  "k < 51 \<Longrightarrow> select_parentId deep_db (node k) = Returns (Some (Some (node (Suc k))))"
  using find_deep_row [of 0 k 51]
  by (simp add: select_parentId_def find_department_def deep_db_def client_def no_faults_def deep_row_def dept_def)

lemma deep_walk_from:
  "i + len \<le> 51 \<Longrightarrow> walks deep_db (Some (node i)) (map node [i..<i + len]) (Some (node (i + len)))"
proof (induction len arbitrary: i)
  case 0
  then show ?case by simp
next
  case (Suc len)
  then have "walks deep_db (Some (node (Suc i))) (map node [Suc i..<Suc i + len]) (Some (node (Suc i + len)))"
    by (intro Suc.IH) simp
  moreover have "node i \<noteq> []" by (simp add: node_def)
  ultimately show ?case using Suc.prems by (simp add: upt_conv_Cons deep_select del: upt_Suc)
qed

lemma deep_walk: "walks deep_db (Some (node 0)) (map node [0..<50]) (Some (node 50))"
  using deep_walk_from [of 0 50] by simp

lemma deep_distinct: "distinct (''D'' # map node [0..<50])"
  by (auto simp: distinct_map inj_on_def node_def)

theorem cycle_check_fails_open_witness:
  "\<not> fst (checkCircularReference ''D'' (node 0) deep_db) \<and>
   \<not> fst (checkCircularReference ''D'' ''A'' orphan_db) \<and>
   \<not> fst (checkCircularReference ''D'' ''A'' broken_db)"
proof -
  have 1: "\<not> fst (checkCircularReference ''D'' (node 0) deep_db)"
    using cycle_check_fails_open [OF deep_walk deep_distinct] by (simp add: maxDepth_def)
  have 2: "\<not> fst (checkCircularReference ''D'' ''A'' orphan_db)"
    using cycle_check_fails_open [of orphan_db "''A''" "[''A'']" "Some ''M''" "''D''"]
    by (simp add: select_parentId_def find_department_def orphan_db_def client_def dept_def no_faults_def maxDepth_def)
  have 3: "\<not> fst (checkCircularReference ''D'' ''A'' broken_db)"
    using cycle_check_fails_open [of broken_db "''A''" "[]" "Some ''A''" "''D''"]
    by (simp add: select_parentId_def find_department_def broken_db_def client_def dept_def maxDepth_def)
  from 1 2 3 show ?thesis by simp
qed

subsection \<open>The cycle check only reads\<close>

lemma loop_fst_queries:
  "fst (checkCircularReference_loop c V d (p\<lparr>queries := l\<rparr>)) = fst (checkCircularReference_loop c V d p)"
proof (induction c V d p arbitrary: l rule: checkCircularReference_loop.induct)
  case (1 c V d p)
  show ?case
  proof (cases c)
    case None
    then show ?thesis by (simp add: checkCircularReference_loop.simps)
  next
    case (Some x)
    show ?thesis
    proof (cases "x \<noteq> [] \<and> d < maxDepth \<and> x \<notin> V")
      case False
      then show ?thesis using Some
        by (subst (1 2) checkCircularReference_loop.simps) auto
    next
      case True
      show ?thesis
      proof (cases "select_parentId p x")
        case Throws
        then show ?thesis using Some True
          by (subst (1 2) checkCircularReference_loop.simps)
             (simp add: department_findUnique_parentId_def)
      next
        case (Returns r)
        show ?thesis
        proof (cases r)
          case None
          then show ?thesis using Some True Returns
            by (subst (1 2) checkCircularReference_loop.simps)
               (simp add: department_findUnique_parentId_def)
        next
          case (Some parent)
          have fu: "department_findUnique_parentId x p = (Returns (Some parent), logged (Department_findUnique_parentId x) p)"
            using Returns Some by (simp add: department_findUnique_parentId_def)
          have IH: "\<And>l. fst (checkCircularReference_loop parent (insert x V) (d + 1)
                    ((logged (Department_findUnique_parentId x) p)\<lparr>queries := l\<rparr>)) =
                fst (checkCircularReference_loop parent (insert x V) (d + 1)
                    (logged (Department_findUnique_parentId x) p))"
            using "1.IH" [OF \<open>c = Some x\<close> _ _ _ _ refl] True fu by simp
          show ?thesis using \<open>c = Some x\<close> True Returns Some
            IH [of "l @ [Department_findUnique_parentId x]"]
            by (subst (1 2) checkCircularReference_loop.simps)
               (simp add: department_findUnique_parentId_def logged_def)
        qed
      qed
    qed
  qed
qed


lemma loop_snd:
  "\<exists>cs. snd (checkCircularReference_loop c V d p) =
        p\<lparr>queries := queries p @ map Department_findUnique_parentId cs\<rparr>"
proof (induction c V d p rule: checkCircularReference_loop.induct)
  case (1 c V d p)
  show ?case
  proof (cases c)
    case None
    then show ?thesis
      by (subst checkCircularReference_loop.simps) (rule exI [of _ "[]"], simp)
  next
    case (Some x)
    show ?thesis
    proof (cases "x \<noteq> [] \<and> d < maxDepth \<and> x \<notin> V")
      case False
      then show ?thesis using Some
        by (subst checkCircularReference_loop.simps) (rule exI [of _ "[]"], auto)
    next
      case True
      show ?thesis
      proof (cases "select_parentId p x")
        case Throws
        then show ?thesis using Some True
          by (subst checkCircularReference_loop.simps)
             (rule exI [of _ "[x]"], simp add: department_findUnique_parentId_def logged_def)
      next
        case (Returns r)
        show ?thesis
        proof (cases r)
          case None
          then show ?thesis using Some True Returns
            by (subst checkCircularReference_loop.simps)
               (rule exI [of _ "[x]"], simp add: department_findUnique_parentId_def logged_def)
        next
          case (Some parent)
          have fu: "department_findUnique_parentId x p =
              (Returns (Some parent), logged (Department_findUnique_parentId x) p)"
            using Returns Some by (simp add: department_findUnique_parentId_def)
          from "1.IH" [OF \<open>c = Some x\<close> _ _ _ _ refl] True fu
          obtain cs where "snd (checkCircularReference_loop parent (insert x V) (d + 1)
                (logged (Department_findUnique_parentId x) p)) =
              (logged (Department_findUnique_parentId x) p)
                \<lparr>queries := queries (logged (Department_findUnique_parentId x) p) @
                   map Department_findUnique_parentId cs\<rparr>"
            by auto
          then have "snd (checkCircularReference_loop c V d p) =
              p\<lparr>queries := queries p @ map Department_findUnique_parentId (x # cs)\<rparr>"
            using \<open>c = Some x\<close> True fu
            by (subst checkCircularReference_loop.simps) (simp add: logged_def)
          then show ?thesis by blast
        qed
      qed
    qed
  qed
qed

lemma checkCircularReference_snd:
  "\<exists>cs. snd (checkCircularReference i q p) =
        p\<lparr>queries := queries p @ map Department_findUnique_parentId cs\<rparr>"
proof (cases "i = q")
  case True
  then show ?thesis unfolding checkCircularReference_def by (intro exI [of _ "[]"]) simp
next
  case False
  then show ?thesis using loop_snd unfolding checkCircularReference_def by simp
qed

lemma checkCircularReference_fst_queries:
  "fst (checkCircularReference i q (p\<lparr>queries := l\<rparr>)) = fst (checkCircularReference i q p)"
  by (simp add: checkCircularReference_def loop_fst_queries)


section \<open>Reads leave the tables alone\<close>

lemma extends_log_refl [simp]: "extends_log ok p p"
  unfolding extends_log_def by (rule exI [of _ "[]"]) simp

lemma extends_log_trans:
  "extends_log ok p p' \<Longrightarrow> extends_log ok p' p'' \<Longrightarrow> extends_log ok p p''"
  unfolding extends_log_def
proof (elim exE conjE)
  fix cs ds
  assume "p' = p\<lparr>queries := queries p @ cs\<rparr>" "list_all ok cs"
    "p'' = p'\<lparr>queries := queries p' @ ds\<rparr>" "list_all ok ds"
  then have "p'' = p\<lparr>queries := queries p @ (cs @ ds)\<rparr> \<and> list_all ok (cs @ ds)" by simp
  then show "\<exists>cs. p'' = p\<lparr>queries := queries p @ cs\<rparr> \<and> list_all ok cs" by blast
qed

lemma extends_log_logged: "ok c \<Longrightarrow> extends_log ok p (logged c p)"
  unfolding extends_log_def logged_def by (rule exI [of _ "[c]"]) simp

lemma extends_log_data:
  "extends_log ok p p' \<Longrightarrow> data p' = data p \<and> failing p' = failing p \<and> ordered p' = ordered p"
  unfolding extends_log_def by auto

lemma extends_log_filter:
  "extends_log ok p p' \<Longrightarrow> (\<And>c. ok c \<Longrightarrow> \<not> f c) \<Longrightarrow> filter f (queries p') = filter f (queries p)"
  unfolding extends_log_def by (auto simp: list_all_iff filter_empty_conv)

lemma extends_log_queries:
  "extends_log ok p p' \<Longrightarrow> \<exists>l. p' = p\<lparr>queries := l\<rparr>"
  unfolding extends_log_def by blast

lemma checkCircularReference_extends:
  assumes "\<And>x. ok (Department_findUnique_parentId x)"
  shows "extends_log ok p (snd (checkCircularReference i q p))"
proof -
  obtain cs where "snd (checkCircularReference i q p) =
      p\<lparr>queries := queries p @ map Department_findUnique_parentId cs\<rparr>"
    using checkCircularReference_snd by blast
  moreover have "list_all ok (map Department_findUnique_parentId cs)"
    using assms by (simp add: list_all_iff)
  ultimately show ?thesis unfolding extends_log_def by blast
qed

lemma validateManager_fst [simp]:
  "fst (validateManager m (p\<lparr>queries := l\<rparr>)) = fst (validateManager m p)"
  by (simp add: validateManager_def employee_findFirst_active_def split: option.splits)

lemma validateManager_extends:
  "(\<And>x. ok (Employee_findFirst_active x)) \<Longrightarrow> extends_log ok p (snd (validateManager m p))"
  by (auto simp: validateManager_def employee_findFirst_active_def extends_log_logged
      split: option.splits)

lemma update_checkName_fst [simp]:
  "fst (update_checkName i n e (p\<lparr>queries := l\<rparr>)) = fst (update_checkName i n e p)"
  by (simp add: update_checkName_def department_findFirst_name_def split: option.splits)

lemma update_checkName_extends:
  "(\<And>x y. ok (Department_findFirst_name x y)) \<Longrightarrow>
   extends_log ok p (snd (update_checkName i n e p))"
  by (auto simp: update_checkName_def department_findFirst_name_def extends_log_logged
      split: option.splits)

lemma validateParent_eq:
  "validateParent q p =
     (if failing p (Department_findFirst_active q) then Some PrismaError
      else if find (\<lambda>d. dept_id d = q \<and> isActive d) (departments (data p)) = None
      then Some (ValidationError ''Parent department not found or not active'')
      else None, logged (Department_findFirst_active q) p)"
  by (auto simp: validateParent_def department_findFirst_active_def)

lemma update_checkParent_fst:
  "truthy q \<Longrightarrow>
   fst (update_checkParent i (Some (Some q)) p) =
     (if failing p (Department_findFirst_active q) then Some PrismaError
      else if find (\<lambda>d. dept_id d = q \<and> isActive d) (departments (data p)) = None
      then Some (ValidationError ''Parent department not found or not active'')
      else if fst (checkCircularReference i q p)
      then Some (ValidationError ''Cannot create circular parent-child relationship'')
      else None)"
  using checkCircularReference_fst_queries
    [where i = i and q = q and p = p and l = "queries p @ [Department_findFirst_active q]"]
  by (auto simp: update_checkParent_def validateParent_eq logged_def split: prod.splits)

lemma update_checkParent_queries [simp]:
  "fst (update_checkParent i q (p\<lparr>queries := l\<rparr>)) = fst (update_checkParent i q p)"
proof (cases q)
  case None
  then show ?thesis by (simp add: update_checkParent_def)
next
  case (Some q')
  show ?thesis
  proof (cases q')
    case None
    then show ?thesis using Some by (simp add: update_checkParent_def)
  next
    case (Some x)
    show ?thesis
    proof (cases "truthy x")
      case True
      then show ?thesis using \<open>q = Some q'\<close> Some
        by (simp add: update_checkParent_fst checkCircularReference_fst_queries)
    next
      case False
      then show ?thesis using \<open>q = Some q'\<close> Some by (simp add: update_checkParent_def)
    qed
  qed
qed

lemma update_checkParent_extends:
  assumes "\<And>x. ok (Department_findUnique_parentId x)" "\<And>x. ok (Department_findFirst_active x)"
  shows "extends_log ok p (snd (update_checkParent i q p))"
proof -
  have "extends_log ok p (snd (checkCircularReference i x (logged (Department_findFirst_active x) p)))" for x
    using extends_log_trans [OF extends_log_logged checkCircularReference_extends] assms by blast
  then have "checkCircularReference i x (logged (Department_findFirst_active x) p) = (b, p') \<Longrightarrow>
      extends_log ok p p'" for x b p'
    by (metis snd_conv)
  then show ?thesis
    by (auto simp: update_checkParent_def validateParent_eq extends_log_logged assms
        split: option.splits prod.splits)
qed

lemma update_checkParent_absent:
  "q = None \<or> q = Some None \<Longrightarrow> update_checkParent i q p = (None, p)"
  by (auto simp: update_checkParent_def)


lemma updateDepartment_try_reads:
  assumes ok: "ok (Department_findUnique i)" "\<And>x y. ok (Department_findFirst_name x y)"
      "\<And>x. ok (Employee_findFirst_active x)"
    and okp: "u_parentId v = None \<or> u_parentId v = Some None \<or>
      ((\<forall>x. ok (Department_findUnique_parentId x)) \<and> (\<forall>x. ok (Department_findFirst_active x)))"
  shows "\<exists>p4. extends_log ok p p4 \<and>
     updateDepartment_try i v p =
       (case update_checks i v p of
          Some e \<Rightarrow> (Inl e, p4)
        | None \<Rightarrow>
            (case department_update i (updateData v) p4 of
               (Throws, p5) \<Rightarrow> (Inl PrismaError, p5)
             | (Returns d, p5) \<Rightarrow> (Inr d, p5)))"
proof -
  let ?p1 = "logged (Department_findUnique i) p"
  have e1: "extends_log ok p ?p1" using ok(1) by (rule extends_log_logged)
  show ?thesis
  proof (cases "failing p (Department_findUnique i)")
    case True
    then have "updateDepartment_try i v p = (Inl PrismaError, ?p1)"
      by (simp add: updateDepartment_try_def department_findUnique_def)
    then show ?thesis using e1 True by (auto simp: update_checks_def)
  next
    case False
    show ?thesis
    proof (cases "find_department p i")
      case None
      then have "updateDepartment_try i v p = (Inl (NotFoundError ''Department not found''), ?p1)"
        using False by (simp add: updateDepartment_try_def department_findUnique_def)
      then show ?thesis using e1 False None by (auto simp: update_checks_def)
    next
      case (Some ex)
      let ?p2 = "snd (update_checkName i (u_name v) ex ?p1)"
      let ?p3 = "snd (validateManager (u_managerId v) ?p2)"
      let ?p4 = "snd (update_checkParent i (u_parentId v) ?p3)"
      have e2: "extends_log ok p ?p2"
        using extends_log_trans [OF e1 update_checkName_extends] ok(2) by blast
      have e3: "extends_log ok p ?p3"
        using extends_log_trans [OF e2 validateManager_extends] ok(3) by blast
      have "extends_log ok ?p3 ?p4"
        using okp by (auto simp: update_checkParent_absent intro: update_checkParent_extends)
      then have e4: "extends_log ok p ?p4" using extends_log_trans [OF e3] by blast
      from extends_log_queries [OF e1] obtain l1 where l1: "?p1 = p\<lparr>queries := l1\<rparr>" ..
      from extends_log_queries [OF e2] obtain l2 where l2: "?p2 = p\<lparr>queries := l2\<rparr>" ..
      from extends_log_queries [OF e3] obtain l3 where l3: "?p3 = p\<lparr>queries := l3\<rparr>" ..
      have c1: "fst (update_checkName i (u_name v) ex ?p1) = fst (update_checkName i (u_name v) ex p)"
        by (simp add: l1)
      have c2: "fst (validateManager (u_managerId v) ?p2) = fst (validateManager (u_managerId v) p)"
        by (simp add: l2)
      have c3: "fst (update_checkParent i (u_parentId v) ?p3) = fst (update_checkParent i (u_parentId v) p)"
        by (simp add: l3)
      have fu: "department_findUnique i p = (Returns (Some ex), ?p1)"
        using False Some by (simp add: department_findUnique_def)
      show ?thesis
      proof (cases "fst (update_checkName i (u_name v) ex p)")
        case (Some e)
        then have "updateDepartment_try i v p = (Inl e, ?p2)"
          using fu c1 by (simp add: updateDepartment_try_def split_beta)
        then show ?thesis using e2 False \<open>find_department p i = Some ex\<close> Some
          by (auto simp: update_checks_def)
      next
        case n1: None
        show ?thesis
        proof (cases "fst (validateManager (u_managerId v) p)")
          case (Some e)
          then have "updateDepartment_try i v p = (Inl e, ?p3)"
            using fu c1 c2 n1 by (simp add: updateDepartment_try_def split_beta)
          then show ?thesis using e3 False \<open>find_department p i = Some ex\<close> n1 Some
            by (auto simp: update_checks_def)
        next
          case n2: None
          show ?thesis
          proof (cases "fst (update_checkParent i (u_parentId v) p)")
            case (Some e)
            then have "updateDepartment_try i v p = (Inl e, ?p4)"
              using fu c1 c2 c3 n1 n2 by (simp add: updateDepartment_try_def split_beta)
            then show ?thesis using e4 False \<open>find_department p i = Some ex\<close> n1 n2 Some
              by (auto simp: update_checks_def)
          next
            case n3: None
            then have "updateDepartment_try i v p =
               (case department_update i (updateData v) ?p4 of
                  (Throws, p5) \<Rightarrow> (Inl PrismaError, p5)
                | (Returns d, p5) \<Rightarrow> (Inr d, p5))"
              using fu c1 c2 c3 n1 n2 by (simp add: updateDepartment_try_def split_beta)
            then show ?thesis using e4 False \<open>find_department p i = Some ex\<close> n1 n2 n3
              by (auto simp: update_checks_def)
          qed
        qed
      qed
    qed
  qed
qed


lemma updateDepartment_reads:
  assumes pre: "truthy i" "checkAuthorization role [''ADMIN'', ''HR''] = None"
      "updateDepartmentSchema_parse input = Inr v"
    and ok: "ok (Department_findUnique i)" "\<And>x y. ok (Department_findFirst_name x y)"
      "\<And>x. ok (Employee_findFirst_active x)"
    and okp: "u_parentId v = None \<or> u_parentId v = Some None \<or>
      ((\<forall>x. ok (Department_findUnique_parentId x)) \<and> (\<forall>x. ok (Department_findFirst_active x)))"
  shows "\<exists>p4. extends_log ok p p4 \<and>
     updateDepartment i input role p =
       (case update_checks i v p of
          Some e \<Rightarrow> (Inl (rethrow ''Failed to update department'' e), p4)
        | None \<Rightarrow>
            (case department_update i (updateData v) p4 of
               (Throws, p5) \<Rightarrow> (Inl (Error ''Failed to update department''), p5)
             | (Returns d, p5) \<Rightarrow> (Inr d, p5)))"
proof -
  from updateDepartment_try_reads [OF ok okp] obtain p4 where
    e: "extends_log ok p p4" and
    t: "updateDepartment_try i v p =
       (case update_checks i v p of
          Some e \<Rightarrow> (Inl e, p4)
        | None \<Rightarrow>
            (case department_update i (updateData v) p4 of
               (Throws, p5) \<Rightarrow> (Inl PrismaError, p5)
             | (Returns d, p5) \<Rightarrow> (Inr d, p5)))"
    by blast
  have "updateDepartment i input role p =
       (case update_checks i v p of
          Some e \<Rightarrow> (Inl (rethrow ''Failed to update department'' e), p4)
        | None \<Rightarrow>
            (case department_update i (updateData v) p4 of
               (Throws, p5) \<Rightarrow> (Inl (Error ''Failed to update department''), p5)
             | (Returns d, p5) \<Rightarrow> (Inr d, p5)))"
    using pre t
    by (simp add: updateDepartment_def rethrow_def split: option.splits prod.splits reply.splits)
  with e show ?thesis by blast
qed

lemma department_update_queries:
  "queries (snd (department_update i u p)) = queries p @ [Department_update i]"
  by (simp add: department_update_def logged_def split: option.splits)

lemma department_update_Throws:
  "fst (department_update i u p) = Throws \<Longrightarrow> data (snd (department_update i u p)) = data p"
  by (auto simp: department_update_def logged_def split: option.splits if_splits)

lemma is_uuid_truthy: "is_uuid s \<Longrightarrow> truthy s"
  by (auto simp: is_uuid_def truthy_def)

lemma parse_optional_uuid_Some:
  "parse_optional_uuid m x = Inr (Some (Some q)) \<Longrightarrow> is_uuid q \<and> x = Str q"
  by (auto simp: parse_optional_uuid_def split: jsval.splits if_splits)

section \<open>Updating a department\<close>

lemma updateDepartmentSchema_parse_fields:
  "updateDepartmentSchema_parse input = Inr v \<Longrightarrow>
     partial parse_name (in_name input) = Inr (u_name v) \<and>
     parse_optional_uuid ''Invalid manager ID'' (in_managerId input) = Inr (u_managerId v) \<and>
     parse_optional_uuid ''Invalid parent department ID'' (in_parentId input) = Inr (u_parentId v) \<and>
     partial parse_isActive (in_isActive input) = Inr (u_isActive v) \<and>
     partial parse_description (in_description input) = Inr (u_description v)"
  unfolding updateDepartmentSchema_parse_def Let_def
  by (cases "partial parse_name (in_name input)";
      cases "parse_optional_uuid ''Invalid manager ID'' (in_managerId input)";
      cases "parse_optional_uuid ''Invalid parent department ID'' (in_parentId input)";
      cases "partial parse_isActive (in_isActive input)";
      cases "partial parse_description (in_description input)") auto

lemma update_checks_parent:
  assumes "reaches_parent_check i v role p"
  shows "update_checks i v p = fst (update_checkParent i (u_parentId v) p)"
  using assms by (auto simp: reaches_parent_check_def update_checks_def split: option.splits)

lemma parse_parent_truthy:
  assumes "updateDepartmentSchema_parse input = Inr v" "u_parentId v = Some (Some q)"
  shows "truthy q"
proof -
  have "parse_optional_uuid ''Invalid parent department ID'' (in_parentId input) = Inr (Some (Some q))"
    using updateDepartmentSchema_parse_fields [OF assms(1)] assms(2) by simp
  then have "is_uuid q" by (simp add: parse_optional_uuid_Some)
  then show ?thesis by (rule is_uuid_truthy)
qed

lemma updateDepartment_early:
  assumes "\<not> (truthy i \<and> checkAuthorization role [''ADMIN'', ''HR''] = None)"
  shows "isl (fst (updateDepartment i input role p)) \<and> snd (updateDepartment i input role p) = p"
  using assms by (auto simp: updateDepartment_def split: option.splits)

lemma updateDepartment_rejected:
  assumes pre: "truthy i" "checkAuthorization role [''ADMIN'', ''HR''] = None"
      "updateDepartmentSchema_parse input = Inr v"
    and chk: "update_checks i v p = Some e"
    and ok: "ok (Department_findUnique i)" "\<And>x y. ok (Department_findFirst_name x y)"
      "\<And>x. ok (Employee_findFirst_active x)"
      "\<And>x. ok (Department_findUnique_parentId x)" "\<And>x. ok (Department_findFirst_active x)"
  shows "fst (updateDepartment i input role p) = Inl (rethrow ''Failed to update department'' e) \<and>
         extends_log ok p (snd (updateDepartment i input role p))"
proof -
  have "\<exists>p4. extends_log ok p p4 \<and>
     updateDepartment i input role p =
       (case update_checks i v p of
          Some e \<Rightarrow> (Inl (rethrow ''Failed to update department'' e), p4)
        | None \<Rightarrow>
            (case department_update i (updateData v) p4 of
               (Throws, p5) \<Rightarrow> (Inl (Error ''Failed to update department''), p5)
             | (Returns d, p5) \<Rightarrow> (Inr d, p5)))"
    using ok by (intro updateDepartment_reads [OF pre]) simp_all
  then obtain p4 where "extends_log ok p p4"
    "updateDepartment i input role p = (Inl (rethrow ''Failed to update department'' e), p4)"
    unfolding chk by auto
  then show ?thesis by simp
qed

lemma updateDepartment_no_parent_queries:
  assumes parse: "updateDepartmentSchema_parse input = Inr v"
    and absent: "u_parentId v = None \<or> u_parentId v = Some None"
  shows "filter parent_query (queries (snd (updateDepartment i input role p))) =
         filter parent_query (queries p)"
proof (cases "truthy i \<and> checkAuthorization role [''ADMIN'', ''HR''] = None")
  case False
  then show ?thesis using updateDepartment_early [of i role input p] by simp
next
  case True
  then have pre: "truthy i" "checkAuthorization role [''ADMIN'', ''HR''] = None" by simp_all
  let ?ok = "\<lambda>c. \<not> parent_query c"
  have "\<exists>p4. extends_log ?ok p p4 \<and>
     updateDepartment i input role p =
       (case update_checks i v p of
          Some e \<Rightarrow> (Inl (rethrow ''Failed to update department'' e), p4)
        | None \<Rightarrow>
            (case department_update i (updateData v) p4 of
               (Throws, p5) \<Rightarrow> (Inl (Error ''Failed to update department''), p5)
             | (Returns d, p5) \<Rightarrow> (Inr d, p5)))"
    using absent by (intro updateDepartment_reads [OF pre parse]) (simp_all add: parent_query_def)
  then obtain p4 where e: "extends_log ?ok p p4" and
    u: "updateDepartment i input role p =
       (case update_checks i v p of
          Some e \<Rightarrow> (Inl (rethrow ''Failed to update department'' e), p4)
        | None \<Rightarrow>
            (case department_update i (updateData v) p4 of
               (Throws, p5) \<Rightarrow> (Inl (Error ''Failed to update department''), p5)
             | (Returns d, p5) \<Rightarrow> (Inr d, p5)))"
    by blast
  have f4: "filter parent_query (queries p4) = filter parent_query (queries p)"
    using extends_log_filter [OF e] by simp
  show ?thesis
  proof (cases "update_checks i v p")
    case (Some e)
    then show ?thesis using u f4 by simp
  next
    case None
    then have "snd (updateDepartment i input role p) = snd (department_update i (updateData v) p4)"
      using u by (simp split: prod.splits reply.splits)
    then show ?thesis using f4 by (simp add: department_update_queries parent_query_def)
  qed
qed

text \<open>
  C4. Let the payload pass the schema with a non-null \<open>parentId = q\<close>, and let \<open>r\<close>
  be the outcome of the update. If no active department has the id \<open>q\<close>, or the cycle
  check on \<open>(i, q)\<close> reports a cycle, the update fails and the tables are unchanged.
  When the steps before the parent check pass and the parent lookup answers, the error is
  the \<open>ValidationError\<close> of the parent check in the first case and the one of the
  cycle check in the second, and no write call is issued. A payload whose \<open>parentId\<close>
  is absent or \<open>null\<close> issues no parent lookup and no lookup of the cycle check.
\<close>

theorem update_parent_check:
  assumes parse: "updateDepartmentSchema_parse input = Inr v"
    and r: "r = updateDepartment i input role p"
  shows "(u_parentId v = Some (Some q) \<and>
          (find (\<lambda>d. dept_id d = q \<and> isActive d) (departments (data p)) = None \<or>
           fst (checkCircularReference i q p)) \<longrightarrow>
            isl (fst r) \<and> data (snd r) = data p) \<and>
         (u_parentId v = Some (Some q) \<and> reaches_parent_check i v role p \<and>
          \<not> failing p (Department_findFirst_active q) \<and>
          find (\<lambda>d. dept_id d = q \<and> isActive d) (departments (data p)) = None \<longrightarrow>
            fst r = Inl (ValidationError ''Parent department not found or not active'') \<and>
            filter write_call (queries (snd r)) = filter write_call (queries p)) \<and>
         (u_parentId v = Some (Some q) \<and> reaches_parent_check i v role p \<and>
          \<not> failing p (Department_findFirst_active q) \<and>
          find (\<lambda>d. dept_id d = q \<and> isActive d) (departments (data p)) \<noteq> None \<and>
          fst (checkCircularReference i q p) \<longrightarrow>
            fst r = Inl (ValidationError ''Cannot create circular parent-child relationship'') \<and>
            filter write_call (queries (snd r)) = filter write_call (queries p)) \<and>
         (u_parentId v = None \<or> u_parentId v = Some None \<longrightarrow>
            filter parent_query (queries (snd r)) = filter parent_query (queries p))"
proof -
  have A: "u_parentId v = Some (Some q) \<and>
          (find (\<lambda>d. dept_id d = q \<and> isActive d) (departments (data p)) = None \<or>
           fst (checkCircularReference i q p)) \<longrightarrow>
            isl (fst r) \<and> data (snd r) = data p"
  proof
  assume a: "u_parentId v = Some (Some q) \<and>
          (find (\<lambda>d. dept_id d = q \<and> isActive d) (departments (data p)) = None \<or>
           fst (checkCircularReference i q p))"
  then have tq: "truthy q" using parse_parent_truthy [OF parse] by simp
  have "fst (update_checkParent i (u_parentId v) p) \<noteq> None"
    using a tq by (auto simp: update_checkParent_fst)
  then have "update_checks i v p \<noteq> None"
    by (simp add: update_checks_def split: option.splits)
  then obtain e where chk: "update_checks i v p = Some e" by blast
  show "isl (fst r) \<and> data (snd r) = data p"
  proof (cases "truthy i \<and> checkAuthorization role [''ADMIN'', ''HR''] = None")
    case False
    then show ?thesis using updateDepartment_early [of i role input p] unfolding r by simp
  next
    case True
    then have "fst r = Inl (rethrow ''Failed to update department'' e) \<and>
        extends_log (\<lambda>c. True) p (snd r)"
      unfolding r by (intro updateDepartment_rejected [OF _ _ parse chk]) simp_all
    then show ?thesis using extends_log_data [of "\<lambda>c. True" p "snd r"] by simp
  qed
  qed
  have B: "u_parentId v = Some (Some q) \<and> reaches_parent_check i v role p \<and>
          \<not> failing p (Department_findFirst_active q) \<and>
          find (\<lambda>d. dept_id d = q \<and> isActive d) (departments (data p)) = None \<longrightarrow>
            fst r = Inl (ValidationError ''Parent department not found or not active'') \<and>
            filter write_call (queries (snd r)) = filter write_call (queries p)"
  proof
  assume a: "u_parentId v = Some (Some q) \<and> reaches_parent_check i v role p \<and>
          \<not> failing p (Department_findFirst_active q) \<and>
          find (\<lambda>d. dept_id d = q \<and> isActive d) (departments (data p)) = None"
  then have tq: "truthy q" using parse_parent_truthy [OF parse] by simp
  have chk: "update_checks i v p = Some (ValidationError ''Parent department not found or not active'')"
    using a tq update_checks_parent [of i v role p] by (simp add: update_checkParent_fst)
  from a have pre: "truthy i" "checkAuthorization role [''ADMIN'', ''HR''] = None"
    by (auto simp: reaches_parent_check_def)
  have "fst r = Inl (rethrow ''Failed to update department''
          (ValidationError ''Parent department not found or not active'')) \<and>
        extends_log (\<lambda>c. \<not> write_call c) p (snd r)"
    unfolding r by (intro updateDepartment_rejected [OF pre parse chk]) (simp_all add: write_call_def)
  then show "fst r = Inl (ValidationError ''Parent department not found or not active'') \<and>
            filter write_call (queries (snd r)) = filter write_call (queries p)"
    using extends_log_filter [of "\<lambda>c. \<not> write_call c" p "snd r" write_call]
    by (simp add: rethrow_def)
  qed
  have C: "u_parentId v = Some (Some q) \<and> reaches_parent_check i v role p \<and>
          \<not> failing p (Department_findFirst_active q) \<and>
          find (\<lambda>d. dept_id d = q \<and> isActive d) (departments (data p)) \<noteq> None \<and>
          fst (checkCircularReference i q p) \<longrightarrow>
            fst r = Inl (ValidationError ''Cannot create circular parent-child relationship'') \<and>
            filter write_call (queries (snd r)) = filter write_call (queries p)"
  proof
  assume a: "u_parentId v = Some (Some q) \<and> reaches_parent_check i v role p \<and>
          \<not> failing p (Department_findFirst_active q) \<and>
          find (\<lambda>d. dept_id d = q \<and> isActive d) (departments (data p)) \<noteq> None \<and>
          fst (checkCircularReference i q p)"
  then have tq: "truthy q" using parse_parent_truthy [OF parse] by simp
  have chk: "update_checks i v p =
      Some (ValidationError ''Cannot create circular parent-child relationship'')"
    using a tq update_checks_parent [of i v role p] by (simp add: update_checkParent_fst)
  from a have pre: "truthy i" "checkAuthorization role [''ADMIN'', ''HR''] = None"
    by (auto simp: reaches_parent_check_def)
  have "fst r = Inl (rethrow ''Failed to update department''
          (ValidationError ''Cannot create circular parent-child relationship'')) \<and>
        extends_log (\<lambda>c. \<not> write_call c) p (snd r)"
    unfolding r by (intro updateDepartment_rejected [OF pre parse chk]) (simp_all add: write_call_def)
  then show "fst r = Inl (ValidationError ''Cannot create circular parent-child relationship'') \<and>
            filter write_call (queries (snd r)) = filter write_call (queries p)"
    using extends_log_filter [of "\<lambda>c. \<not> write_call c" p "snd r" write_call]
    by (simp add: rethrow_def)
  qed
  have D: "u_parentId v = None \<or> u_parentId v = Some None \<longrightarrow>
            filter parent_query (queries (snd r)) = filter parent_query (queries p)"
  proof
    assume "u_parentId v = None \<or> u_parentId v = Some None"
    then show "filter parent_query (queries (snd r)) = filter parent_query (queries p)"
      unfolding r by (rule updateDepartment_no_parent_queries [OF parse])
  qed
  show ?thesis by (rule conjI [OF A conjI [OF B conjI [OF C D]]])
qed

lemma parse_parent_example:
  "is_uuid q \<Longrightarrow> updateDepartmentSchema_parse (no_change\<lparr>in_parentId := Str q\<rparr>) =
     Inr (unchanged\<lparr>u_parentId := Some (Some q)\<rparr>)"
  by (simp add: updateDepartmentSchema_parse_def no_change_def unchanged_def partial_def
      parse_optional_uuid_def)

lemma uuid_examples: "is_uuid id_sales" "is_uuid id_inside" "is_uuid id_legacy"
  by (simp_all add: is_uuid_def is_hex_def id_sales_def id_inside_def id_legacy_def)

lemmas org_defs = org_db_def client_def no_faults_def dept_def sales_row_def inside_row_def
  legacy_row_def lab_row_def id_sales_def id_inside_def id_legacy_def id_lab_def id_ann_def id_bob_def

lemma sales_reaches_parent_check: "reaches_parent_check id_sales (unchanged\<lparr>u_parentId := Some (Some q)\<rparr>) ''ADMIN'' org_db"
  by (simp add: reaches_parent_check_def truthy_def checkAuthorization_def org_defs
      find_department_def update_checkName_def validateManager_def unchanged_def)

lemma legacy_not_active: "find (\<lambda>d. dept_id d = id_legacy \<and> isActive d) (departments (data org_db)) = None"
  by (simp add: org_defs)

lemma inside_active: "find (\<lambda>d. dept_id d = id_inside \<and> isActive d) (departments (data org_db)) \<noteq> None"
  by (simp add: org_defs)

lemma inside_under_sales: "fst (checkCircularReference id_sales id_inside org_db)"
  by code_simp


lemma parse_null_parent_example:
  "updateDepartmentSchema_parse (no_change\<lparr>in_parentId := Null\<rparr>) =
     Inr (unchanged\<lparr>u_parentId := Some None\<rparr>)"
  by (simp add: updateDepartmentSchema_parse_def no_change_def unchanged_def partial_def
      parse_optional_uuid_def)

lemma org_healthy: "\<not> failing org_db c" "queries org_db = []"
  by (simp_all add: org_defs)

theorem update_parent_check_witness:
  "fst (updateDepartment id_sales (no_change\<lparr>in_parentId := Str id_legacy\<rparr>) ''ADMIN'' org_db) =
     Inl (ValidationError ''Parent department not found or not active'') \<and>
   data (snd (updateDepartment id_sales (no_change\<lparr>in_parentId := Str id_legacy\<rparr>) ''ADMIN'' org_db)) =
     data org_db \<and>
   fst (updateDepartment id_sales (no_change\<lparr>in_parentId := Str id_inside\<rparr>) ''ADMIN'' org_db) =
     Inl (ValidationError ''Cannot create circular parent-child relationship'') \<and>
   data (snd (updateDepartment id_sales (no_change\<lparr>in_parentId := Str id_inside\<rparr>) ''ADMIN'' org_db)) =
     data org_db \<and>
   filter parent_query
     (queries (snd (updateDepartment id_sales (no_change\<lparr>in_parentId := Null\<rparr>) ''ADMIN'' org_db))) = []"
proof -
  note a = update_parent_check [OF parse_parent_example [OF uuid_examples(3)] refl,
      where i = id_sales and role = "''ADMIN''" and p = org_db and q = id_legacy]
  note b = update_parent_check [OF parse_parent_example [OF uuid_examples(2)] refl,
      where i = id_sales and role = "''ADMIN''" and p = org_db and q = id_inside]
  note c = update_parent_check [OF parse_null_parent_example refl,
      where i = id_sales and role = "''ADMIN''" and p = org_db]
  have 1: "fst (updateDepartment id_sales (no_change\<lparr>in_parentId := Str id_legacy\<rparr>) ''ADMIN'' org_db) =
     Inl (ValidationError ''Parent department not found or not active'') \<and>
     data (snd (updateDepartment id_sales (no_change\<lparr>in_parentId := Str id_legacy\<rparr>) ''ADMIN'' org_db)) =
     data org_db"
    using a sales_reaches_parent_check legacy_not_active org_healthy by simp
  have 2: "fst (updateDepartment id_sales (no_change\<lparr>in_parentId := Str id_inside\<rparr>) ''ADMIN'' org_db) =
     Inl (ValidationError ''Cannot create circular parent-child relationship'') \<and>
     data (snd (updateDepartment id_sales (no_change\<lparr>in_parentId := Str id_inside\<rparr>) ''ADMIN'' org_db)) =
     data org_db"
    using b sales_reaches_parent_check inside_active inside_under_sales org_healthy by simp
  have 3: "filter parent_query
     (queries (snd (updateDepartment id_sales (no_change\<lparr>in_parentId := Null\<rparr>) ''ADMIN'' org_db))) = []"
    using c org_healthy by (simp add: unchanged_def)
  from 1 2 3 show ?thesis by simp
qed

subsection \<open>A successful update\<close>

lemma find_department_extends:
  "extends_log ok p p' \<Longrightarrow> find_department p' i = find_department p i"
  by (auto simp: find_department_def dest: extends_log_data)

lemma update_checks_None_found:
  "update_checks i v p = None \<Longrightarrow> \<exists>d. find_department p i = Some d"
  by (auto simp: update_checks_def split: if_splits option.splits)

lemma updateDepartment_accepted:
  assumes pre: "truthy i" "checkAuthorization role [''ADMIN'', ''HR''] = None"
      "updateDepartmentSchema_parse input = Inr v"
    and chk: "update_checks i v p = None"
    and up: "\<not> failing p (Department_update i)"
    and d: "find_department p i = Some d"
  shows "fst (updateDepartment i input role p) = Inr (apply_patch (updateData v) d) \<and>
         data (snd (updateDepartment i input role p)) =
           (data p)\<lparr>departments :=
              map (\<lambda>r. if dept_id r = i then apply_patch (updateData v) r else r)
                (departments (data p))\<rparr>"
proof -
  have "\<exists>p4. extends_log (\<lambda>c. True) p p4 \<and>
     updateDepartment i input role p =
       (case update_checks i v p of
          Some e \<Rightarrow> (Inl (rethrow ''Failed to update department'' e), p4)
        | None \<Rightarrow>
            (case department_update i (updateData v) p4 of
               (Throws, p5) \<Rightarrow> (Inl (Error ''Failed to update department''), p5)
             | (Returns d, p5) \<Rightarrow> (Inr d, p5)))"
    by (intro updateDepartment_reads [OF pre]) simp_all
  then obtain p4 where e: "extends_log (\<lambda>c. True) p p4" and
    u: "updateDepartment i input role p =
         (case department_update i (updateData v) p4 of
            (Throws, p5) \<Rightarrow> (Inl (Error ''Failed to update department''), p5)
          | (Returns d, p5) \<Rightarrow> (Inr d, p5))"
    unfolding chk by auto
  have same: "data p4 = data p" "failing p4 = failing p" "find_department p4 i = Some d"
    using extends_log_data [OF e] find_department_extends [OF e] d by simp_all
  have "department_update i (updateData v) p4 =
      (Returns (apply_patch (updateData v) d),
       logged (Department_update i)
         (p4\<lparr>data := (data p4)\<lparr>departments :=
            map (\<lambda>r. if dept_id r = i then apply_patch (updateData v) r else r)
              (departments (data p4))\<rparr>\<rparr>))"
    using same up by (simp add: department_update_def)
  then show ?thesis using u same by (simp add: logged_def)
qed

lemma updateDepartment_Inr:
  assumes "fst (updateDepartment i input role p) = Inr d'"
  shows "truthy i \<and> checkAuthorization role [''ADMIN'', ''HR''] = None \<and>
         (\<exists>v. updateDepartmentSchema_parse input = Inr v \<and> update_checks i v p = None) \<and>
         \<not> failing p (Department_update i)"
proof -
  have "truthy i \<and> checkAuthorization role [''ADMIN'', ''HR''] = None"
  proof (rule ccontr)
    assume "\<not> (truthy i \<and> checkAuthorization role [''ADMIN'', ''HR''] = None)"
    from updateDepartment_early [OF this, of input p] assms show False by simp
  qed
  then have pre: "truthy i" "checkAuthorization role [''ADMIN'', ''HR''] = None" by simp_all
  obtain v where parse: "updateDepartmentSchema_parse input = Inr v"
    using assms pre by (cases "updateDepartmentSchema_parse input") (auto simp: updateDepartment_def)
  have "\<exists>p4. extends_log (\<lambda>c. True) p p4 \<and>
     updateDepartment i input role p =
       (case update_checks i v p of
          Some e \<Rightarrow> (Inl (rethrow ''Failed to update department'' e), p4)
        | None \<Rightarrow>
            (case department_update i (updateData v) p4 of
               (Throws, p5) \<Rightarrow> (Inl (Error ''Failed to update department''), p5)
             | (Returns d, p5) \<Rightarrow> (Inr d, p5)))"
    by (intro updateDepartment_reads [OF pre parse]) simp_all
  then obtain p4 where e: "extends_log (\<lambda>c. True) p p4" and
    u: "updateDepartment i input role p =
       (case update_checks i v p of
          Some e \<Rightarrow> (Inl (rethrow ''Failed to update department'' e), p4)
        | None \<Rightarrow>
            (case department_update i (updateData v) p4 of
               (Throws, p5) \<Rightarrow> (Inl (Error ''Failed to update department''), p5)
             | (Returns d, p5) \<Rightarrow> (Inr d, p5)))"
    by blast
  have chk: "update_checks i v p = None"
    using assms u by (cases "update_checks i v p") auto
  have "fst (department_update i (updateData v) p4) \<noteq> Throws"
    using assms u chk by (auto split: prod.splits reply.splits)
  then have "\<not> failing p4 (Department_update i)"
    by (auto simp: department_update_def split: option.splits if_splits)
  then have "\<not> failing p (Department_update i)"
    using extends_log_data [OF e] by simp
  then show ?thesis using pre parse chk by blast
qed

lemma updateDepartment_failure_data:
  assumes fails: "isl (fst (updateDepartment i input role p))"
  shows "data (snd (updateDepartment i input role p)) = data p"
proof (cases "truthy i \<and> checkAuthorization role [''ADMIN'', ''HR''] = None")
  case False
  then show ?thesis using updateDepartment_early [of i role input p] by simp
next
  case True
  then have pre: "truthy i" "checkAuthorization role [''ADMIN'', ''HR''] = None" by simp_all
  show ?thesis
  proof (cases "updateDepartmentSchema_parse input")
    case (Inl e)
    then show ?thesis using pre by (simp add: updateDepartment_def)
  next
    case (Inr v)
    have "\<exists>p4. extends_log (\<lambda>c. True) p p4 \<and>
       updateDepartment i input role p =
         (case update_checks i v p of
            Some e \<Rightarrow> (Inl (rethrow ''Failed to update department'' e), p4)
          | None \<Rightarrow>
              (case department_update i (updateData v) p4 of
                 (Throws, p5) \<Rightarrow> (Inl (Error ''Failed to update department''), p5)
               | (Returns d, p5) \<Rightarrow> (Inr d, p5)))"
      by (intro updateDepartment_reads [OF pre Inr]) simp_all
    then obtain p4 where e: "extends_log (\<lambda>c. True) p p4" and
      u: "updateDepartment i input role p =
         (case update_checks i v p of
            Some e \<Rightarrow> (Inl (rethrow ''Failed to update department'' e), p4)
          | None \<Rightarrow>
              (case department_update i (updateData v) p4 of
                 (Throws, p5) \<Rightarrow> (Inl (Error ''Failed to update department''), p5)
               | (Returns d, p5) \<Rightarrow> (Inr d, p5)))"
      by blast
    have d4: "data p4 = data p" using extends_log_data [OF e] by simp
    show ?thesis
    proof (cases "update_checks i v p")
      case (Some e)
      then show ?thesis using u d4 by simp
    next
      case None
      then have s: "snd (updateDepartment i input role p) = snd (department_update i (updateData v) p4)"
        and f: "fst (department_update i (updateData v) p4) = Throws"
        using u fails by (auto split: prod.splits reply.splits)
      show ?thesis using s department_update_Throws [OF f] d4 by simp
    qed
  qed
qed

text \<open>
  C7. A successful update writes exactly the fields that are present in the validated
  payload: every field of the returned row is the payload's value where the payload has
  one and the stored value otherwise, and the other rows and the other tables are
  untouched. Every field the caller omits keeps its stored value, each on its own:
  \<open>name\<close>, \<open>managerId\<close>, \<open>parentId\<close>, \<open>isActive\<close> and
  \<open>description\<close>; so a payload that carries only a description leaves the name, the
  manager and the parent as they were, and one without \<open>isActive\<close> and
  \<open>description\<close> neither reactivates the department nor clears its description.
  The last two rest on the optional wrapper of \<^verbatim>\<open>.partial()\<close> as Zod 3 has it
  (see \<open>partial\<close>): an absent key is \<^verbatim>\<open>undefined\<close> in the validated payload.
\<close>

theorem partial_update_frame:
  assumes parse: "updateDepartmentSchema_parse input = Inr v"
    and succ: "updateDepartment i input role p = (Inr d', p')"
    and old: "find_department p i = Some d"
  shows "dept_id d' = dept_id d \<and>
         name d' = (case u_name v of None \<Rightarrow> name d | Some n \<Rightarrow> n) \<and>
         managerId d' = (case u_managerId v of None \<Rightarrow> managerId d | Some m \<Rightarrow> m) \<and>
         parentId d' = (case u_parentId v of None \<Rightarrow> parentId d | Some q \<Rightarrow> q) \<and>
         isActive d' = (case u_isActive v of None \<Rightarrow> isActive d | Some a \<Rightarrow> a) \<and>
         description d' = (case u_description v of None \<Rightarrow> description d | Some t \<Rightarrow> t) \<and>
         departments (data p') =
           map (\<lambda>r. if dept_id r = i then apply_patch (updateData v) r else r) (departments (data p)) \<and>
         employees (data p') = employees (data p) \<and>
         positions (data p') = positions (data p) \<and>
         (in_name input = Undefined \<and> in_managerId input = Undefined \<and> in_parentId input = Undefined
            \<longrightarrow> name d' = name d \<and> managerId d' = managerId d \<and> parentId d' = parentId d) \<and>
         (in_name input = Undefined \<longrightarrow> name d' = name d) \<and>
         (in_managerId input = Undefined \<longrightarrow> managerId d' = managerId d) \<and>
         (in_parentId input = Undefined \<longrightarrow> parentId d' = parentId d) \<and>
         (in_isActive input = Undefined \<longrightarrow> isActive d' = isActive d) \<and>
         (in_description input = Undefined \<longrightarrow> description d' = description d)"
proof -
  from succ have "fst (updateDepartment i input role p) = Inr d'" by simp
  from updateDepartment_Inr [OF this] parse
  have pre: "truthy i" "checkAuthorization role [''ADMIN'', ''HR''] = None"
    and chk: "update_checks i v p = None" and up: "\<not> failing p (Department_update i)"
    by auto
  from updateDepartment_accepted [OF pre parse chk up old] succ
  have d': "d' = apply_patch (updateData v) d"
    and p': "data p' = (data p)\<lparr>departments :=
              map (\<lambda>r. if dept_id r = i then apply_patch (updateData v) r else r)
                (departments (data p))\<rparr>"
    by simp_all
  have absent: "in_name input = Undefined \<longrightarrow> u_name v = None"
      "in_managerId input = Undefined \<longrightarrow> u_managerId v = None"
      "in_parentId input = Undefined \<longrightarrow> u_parentId v = None"
      "in_isActive input = Undefined \<longrightarrow> u_isActive v = None"
      "in_description input = Undefined \<longrightarrow> u_description v = None"
    using updateDepartmentSchema_parse_fields [OF parse]
    by (auto simp: partial_def parse_optional_uuid_def)
  show ?thesis using d' p' absent by (simp add: apply_patch_def updateData_def)
qed

lemma describe_only_parse:
  "updateDepartmentSchema_parse describe_only =
     Inr (unchanged\<lparr>u_description := Some (Some ''Field sales'')\<rparr>)"
  by (simp add: describe_only_def updateDepartmentSchema_parse_def no_change_def unchanged_def
      partial_def parse_optional_uuid_def parse_description_def trim_def is_space_def)

lemma describe_only_result:
  "fst (updateDepartment id_inside describe_only ''HR'' org_db) =
     Inr (inside_row\<lparr>description := Some ''Field sales''\<rparr>)"
  by code_simp

lemma inside_found: "find_department org_db id_inside = Some inside_row"
  by (simp add: find_department_def org_defs)

lemma rename_only_parse:
  "updateDepartmentSchema_parse (named ''Archive'') = Inr (unchanged\<lparr>u_name := Some ''Archive''\<rparr>)"
  by (simp add: named_def updateDepartmentSchema_parse_def no_change_def unchanged_def
      partial_def parse_optional_uuid_def parse_name_def trim_def is_space_def)

lemma rename_only_result:
  "fst (updateDepartment id_legacy (named ''Archive'') ''HR'' archive_db) =
     Inr (archived_row\<lparr>name := ''Archive''\<rparr>)"
  by code_simp

lemma archived_found: "find_department archive_db id_legacy = Some archived_row"
  by (simp add: find_department_def archive_db_def archived_row_def client_def dept_def)

text \<open>
  Two updates by HR. A description alone, on Inside Sales: the name, the manager and the
  parent stay. A name alone, on a department that is inactive, described and managed: it
  stays inactive, and keeps its description and its manager.
\<close>

theorem partial_update_frame_witness:
  "fst (updateDepartment id_inside describe_only ''HR'' org_db) =
     Inr (inside_row\<lparr>description := Some ''Field sales''\<rparr>) \<and>
   name inside_row = ''Inside Sales'' \<and> managerId inside_row = Some id_bob \<and>
   parentId inside_row = Some id_sales \<and>
   departments (data (snd (updateDepartment id_inside describe_only ''HR'' org_db))) =
     [sales_row, inside_row\<lparr>description := Some ''Field sales''\<rparr>, legacy_row, lab_row] \<and>
   employees (data (snd (updateDepartment id_inside describe_only ''HR'' org_db))) =
     employees (data org_db) \<and>
   fst (updateDepartment id_legacy (named ''Archive'') ''HR'' archive_db) =
     Inr (archived_row\<lparr>name := ''Archive''\<rparr>) \<and>
   isActive (archived_row\<lparr>name := ''Archive''\<rparr>) = False \<and>
   description (archived_row\<lparr>name := ''Archive''\<rparr>) = Some ''Retired'' \<and>
   managerId (archived_row\<lparr>name := ''Archive''\<rparr>) = Some id_ann"
proof -
  have run: "updateDepartment id_inside describe_only ''HR'' org_db =
      (Inr (inside_row\<lparr>description := Some ''Field sales''\<rparr>),
       snd (updateDepartment id_inside describe_only ''HR'' org_db))"
    using describe_only_result by (simp add: prod_eq_iff)
  have run2: "updateDepartment id_legacy (named ''Archive'') ''HR'' archive_db =
      (Inr (archived_row\<lparr>name := ''Archive''\<rparr>),
       snd (updateDepartment id_legacy (named ''Archive'') ''HR'' archive_db))"
    using rename_only_result by (simp add: prod_eq_iff)
  have a: "fst (updateDepartment id_inside describe_only ''HR'' org_db) =
       Inr (inside_row\<lparr>description := Some ''Field sales''\<rparr>) \<and>
     name inside_row = ''Inside Sales'' \<and> managerId inside_row = Some id_bob \<and>
     parentId inside_row = Some id_sales \<and>
     departments (data (snd (updateDepartment id_inside describe_only ''HR'' org_db))) =
       [sales_row, inside_row\<lparr>description := Some ''Field sales''\<rparr>, legacy_row, lab_row] \<and>
     employees (data (snd (updateDepartment id_inside describe_only ''HR'' org_db))) =
       employees (data org_db)"
    using partial_update_frame [OF describe_only_parse run inside_found] describe_only_result
    by (simp add: org_defs apply_patch_def updateData_def unchanged_def)
  have b: "isActive (archived_row\<lparr>name := ''Archive''\<rparr>) = False \<and>
     description (archived_row\<lparr>name := ''Archive''\<rparr>) = Some ''Retired'' \<and>
     managerId (archived_row\<lparr>name := ''Archive''\<rparr>) = Some id_ann"
    using partial_update_frame [OF rename_only_parse run2 archived_found]
    by (simp add: named_def no_change_def archived_row_def dept_def)
  from a b rename_only_result show ?thesis by blast
qed


subsection \<open>Deactivation through update\<close>

lemma find_department_updated:
  assumes "\<And>r. dept_id (f r) = dept_id r"
  shows "find (\<lambda>r. dept_id r = i) (map (\<lambda>r. if dept_id r = i then f r else r) rows) =
         map_option f (find (\<lambda>r. dept_id r = i) rows)"
  using assms by (induction rows) auto

lemma apply_patch_id [simp]: "dept_id (apply_patch u d) = dept_id d"
  by (simp add: apply_patch_def)



lemma sales_found: "find_department org_db id_sales = Some sales_row"
  by (simp add: find_department_def org_defs)


lemma sales_dependents:
  "length (active_employees org_db id_sales) = 1 \<and> length (active_children org_db id_sales) = 1 \<and>
   length (active_positions org_db id_sales) = 1"
  by (simp add: active_employees_def active_children_def active_positions_def org_defs)




section \<open>Deleting a department\<close>

lemma show_nat_digit: "n < 10 \<Longrightarrow> show_nat n = [char_of (48 + n)]"
  by (simp add: show_nat.simps)

lemma deleteDepartment_blocked:
  assumes old: "find_department p i = Some d" and act: "isActive d"
    and emp: "active_employees p i \<noteq> []"
  shows "isl (fst (deleteDepartment i role p)) \<and> data (snd (deleteDepartment i role p)) = data p"
  using assms
  by (auto simp: deleteDepartment_def deleteDepartment_try_def department_findUnique_dependents_def
      logged_def split: option.splits)

text \<open>
  C5. For an existing, active department: with \<open>n \<ge> 1\<close> active employees the delete
  fails and the tables are unchanged, and for an authorized caller whose lookup answers the
  error is the \<open>ValidationError\<close> that names \<open>n\<close>; with no active employee, child
  or position (an authorized caller, a repository that answers) it succeeds, the returned
  and stored row has \<open>isActive = False\<close> and \<open>managerId = None\<close>, and the one
  update call after the lookup writes both.
\<close>

theorem softDelete_guard:
  assumes old: "find_department p i = Some d" and act: "isActive d"
    and r: "r = deleteDepartment i role p"
  shows "(1 \<le> length (active_employees p i) \<longrightarrow>
            isl (fst r) \<and> data (snd r) = data p \<and>
            (truthy i \<and> checkAuthorization role [''ADMIN'', ''HR''] = None \<and>
             \<not> failing p (Department_findUnique_dependents i) \<longrightarrow>
               fst r = Inl (ValidationError (''Cannot delete department with '' @
                         show_nat (length (active_employees p i)) @
                         '' active employee(s). Please reassign employees first.'')))) \<and>
         (active_employees p i = [] \<and> active_children p i = [] \<and> active_positions p i = [] \<and>
          truthy i \<and> checkAuthorization role [''ADMIN'', ''HR''] = None \<and>
          \<not> failing p (Department_findUnique_dependents i) \<and>
          \<not> failing p (Department_update i) \<longrightarrow>
            fst r = Inr (d\<lparr>isActive := False, managerId := None\<rparr>) \<and>
            find_department (snd r) i = Some (d\<lparr>isActive := False, managerId := None\<rparr>) \<and>
            queries (snd r) = queries p @ [Department_findUnique_dependents i, Department_update i])"
proof -
  have A: "1 \<le> length (active_employees p i) \<longrightarrow>
            isl (fst r) \<and> data (snd r) = data p \<and>
            (truthy i \<and> checkAuthorization role [''ADMIN'', ''HR''] = None \<and>
             \<not> failing p (Department_findUnique_dependents i) \<longrightarrow>
               fst r = Inl (ValidationError (''Cannot delete department with '' @
                         show_nat (length (active_employees p i)) @
                         '' active employee(s). Please reassign employees first.'')))"
  proof
    assume "1 \<le> length (active_employees p i)"
    then have ne: "active_employees p i \<noteq> []" by auto
    have "truthy i \<and> checkAuthorization role [''ADMIN'', ''HR''] = None \<and>
             \<not> failing p (Department_findUnique_dependents i) \<longrightarrow>
               fst r = Inl (ValidationError (''Cannot delete department with '' @
                         show_nat (length (active_employees p i)) @
                         '' active employee(s). Please reassign employees first.''))"
      unfolding r using old act ne
      by (simp add: deleteDepartment_def deleteDepartment_try_def
          department_findUnique_dependents_def rethrow_def)
    then show "isl (fst r) \<and> data (snd r) = data p \<and>
            (truthy i \<and> checkAuthorization role [''ADMIN'', ''HR''] = None \<and>
             \<not> failing p (Department_findUnique_dependents i) \<longrightarrow>
               fst r = Inl (ValidationError (''Cannot delete department with '' @
                         show_nat (length (active_employees p i)) @
                         '' active employee(s). Please reassign employees first.'')))"
      using deleteDepartment_blocked [OF old act ne, of role] unfolding r by blast
  qed
  have B: "active_employees p i = [] \<and> active_children p i = [] \<and> active_positions p i = [] \<and>
          truthy i \<and> checkAuthorization role [''ADMIN'', ''HR''] = None \<and>
          \<not> failing p (Department_findUnique_dependents i) \<and>
          \<not> failing p (Department_update i) \<longrightarrow>
            fst r = Inr (d\<lparr>isActive := False, managerId := None\<rparr>) \<and>
            find_department (snd r) i = Some (d\<lparr>isActive := False, managerId := None\<rparr>) \<and>
            queries (snd r) = queries p @ [Department_findUnique_dependents i, Department_update i]"
  proof
    assume a: "active_employees p i = [] \<and> active_children p i = [] \<and> active_positions p i = [] \<and>
          truthy i \<and> checkAuthorization role [''ADMIN'', ''HR''] = None \<and>
          \<not> failing p (Department_findUnique_dependents i) \<and>
          \<not> failing p (Department_update i)"
    have patch: "apply_patch deactivation d = d\<lparr>isActive := False, managerId := None\<rparr>"
      by (simp add: apply_patch_def deactivation_def)
    have run: "r = (Inr (d\<lparr>isActive := False, managerId := None\<rparr>),
        logged (Department_update i)
          ((logged (Department_findUnique_dependents i) p)
             \<lparr>data := (data p)\<lparr>departments :=
                map (\<lambda>r. if dept_id r = i then apply_patch deactivation r else r)
                  (departments (data p))\<rparr>\<rparr>))"
      unfolding r using old act a patch
      by (simp add: deleteDepartment_def deleteDepartment_try_def
          department_findUnique_dependents_def department_update_def find_department_def logged_def)
    have "find_department (snd r) i = Some (d\<lparr>isActive := False, managerId := None\<rparr>)"
      using run old patch find_department_updated [of "apply_patch deactivation" i "departments (data p)"]
      by (simp add: find_department_def logged_def)
    then show "fst r = Inr (d\<lparr>isActive := False, managerId := None\<rparr>) \<and>
            find_department (snd r) i = Some (d\<lparr>isActive := False, managerId := None\<rparr>) \<and>
            queries (snd r) = queries p @ [Department_findUnique_dependents i, Department_update i]"
      using run by (simp add: logged_def)
  qed
  show ?thesis by (rule conjI [OF A B])
qed

lemma lab_found: "find_department org_db id_lab = Some lab_row"
  by (simp add: find_department_def org_defs)

lemma lab_free:
  "active_employees org_db id_lab = [] \<and> active_children org_db id_lab = [] \<and>
   active_positions org_db id_lab = []"
  by (simp add: active_employees_def active_children_def active_positions_def org_defs)

theorem softDelete_guard_witness:
  "fst (deleteDepartment id_sales ''ADMIN'' org_db) =
     Inl (ValidationError
       ''Cannot delete department with 1 active employee(s). Please reassign employees first.'') \<and>
   data (snd (deleteDepartment id_sales ''ADMIN'' org_db)) = data org_db \<and>
   managerId lab_row = Some id_ann \<and>
   fst (deleteDepartment id_lab ''HR'' org_db) = Inr (lab_row\<lparr>isActive := False, managerId := None\<rparr>) \<and>
   queries (snd (deleteDepartment id_lab ''HR'' org_db)) =
     [Department_findUnique_dependents id_lab, Department_update id_lab]"
proof -
  have s: "truthy id_sales" "checkAuthorization ''ADMIN'' [''ADMIN'', ''HR''] = None"
    "\<not> failing org_db (Department_findUnique_dependents id_sales)" "isActive sales_row"
    by (simp_all add: truthy_def checkAuthorization_def org_defs)
  have l: "truthy id_lab" "checkAuthorization ''HR'' [''ADMIN'', ''HR''] = None"
    "\<not> failing org_db (Department_findUnique_dependents id_lab)" "isActive lab_row"
    "\<not> failing org_db (Department_update id_lab)" "queries org_db = []"
    "managerId lab_row = Some id_ann"
    by (simp_all add: truthy_def checkAuthorization_def org_defs)
  have one: "show_nat 1 = ''1''" by code_simp
  from softDelete_guard [OF sales_found s(4) refl, of "''ADMIN''"] s sales_dependents one
  have 1: "fst (deleteDepartment id_sales ''ADMIN'' org_db) =
     Inl (ValidationError
       ''Cannot delete department with 1 active employee(s). Please reassign employees first.'') \<and>
     data (snd (deleteDepartment id_sales ''ADMIN'' org_db)) = data org_db"
    by simp
  from softDelete_guard [OF lab_found l(4) refl, of "''HR''"] lab_free l
  have 2: "fst (deleteDepartment id_lab ''HR'' org_db) = Inr (lab_row\<lparr>isActive := False, managerId := None\<rparr>) \<and>
     queries (snd (deleteDepartment id_lab ''HR'' org_db)) =
       [Department_findUnique_dependents id_lab, Department_update id_lab]"
    by simp
  from 1 2 l(7) show ?thesis by simp
qed

section \<open>Creating a department\<close>

lemma validateParent_extends:
  "ok (Department_findFirst_active q) \<Longrightarrow> extends_log ok p (snd (validateParent q p))"
  by (simp add: validateParent_eq extends_log_logged)

lemma departmentSchema_parse_fields:
  "departmentSchema_parse input = Inr v \<Longrightarrow>
     parse_name (in_name input) = Inr (c_name v) \<and>
     parse_optional_uuid ''Invalid manager ID'' (in_managerId input) = Inr (c_managerId v) \<and>
     parse_optional_uuid ''Invalid parent department ID'' (in_parentId input) = Inr (c_parentId v) \<and>
     parse_isActive (in_isActive input) = Inr (c_isActive v) \<and>
     parse_description (in_description input) = Inr (c_description v)"
  unfolding departmentSchema_parse_def Let_def
  by (cases "parse_name (in_name input)";
      cases "parse_optional_uuid ''Invalid manager ID'' (in_managerId input)";
      cases "parse_optional_uuid ''Invalid parent department ID'' (in_parentId input)";
      cases "parse_isActive (in_isActive input)";
      cases "parse_description (in_description input)") auto

text \<open>The outcome of the name lookup of create, read off the state the call starts in.\<close>

lemma createDepartment_try_duplicate:
  assumes "\<exists>d\<in>set (departments (data p)). equals_insensitive (name d) (c_name v)"
  shows "fst (createDepartment_try newId v p) =
           (if failing p (Department_findFirst_name (c_name v) None) then Inl PrismaError
            else Inl (ValidationError ''Department name already exists'')) \<and>
         snd (createDepartment_try newId v p) = logged (Department_findFirst_name (c_name v) None) p"
proof -
  have "find (\<lambda>d. equals_insensitive (name d) (c_name v) \<and> Some (dept_id d) \<noteq> None)
          (departments (data p)) \<noteq> None"
    using assms by (auto simp: find_None_iff)
  then show ?thesis
    by (auto simp: createDepartment_try_def department_findFirst_name_def)
qed

lemma validateManager_errors:
  "fst (validateManager m p) = Some e \<Longrightarrow>
     e = PrismaError \<or> e = ValidationError ''Manager not found or not active''"
  by (auto simp: validateManager_def employee_findFirst_active_def
      split: option.splits if_splits)

lemma validateParent_errors:
  "fst (validateParent q p) = Some e \<Longrightarrow>
     e = PrismaError \<or> e = ValidationError ''Parent department not found or not active''"
  by (auto simp: validateParent_eq split: if_splits)

lemma createDepartment_try_reads:
  "\<exists>p3. extends_log (\<lambda>c. \<not> write_call c) p p3 \<and>
     createDepartment_try newId v p =
       (case create_checks v p of
          Some e \<Rightarrow> (Inl e, p3)
        | None \<Rightarrow>
            (case department_create newId v p3 of
               (Throws, p4) \<Rightarrow> (Inl PrismaError, p4)
             | (Returns d, p4) \<Rightarrow> (Inr d, p4)))"
proof -
  let ?ok = "\<lambda>c. \<not> write_call c"
  let ?c = "Department_findFirst_name (c_name v) None"
  let ?p1 = "logged ?c p"
  let ?found = "find (\<lambda>d. equals_insensitive (name d) (c_name v)) (departments (data p))"
  have e1: "extends_log ?ok p ?p1" by (simp add: extends_log_logged write_call_def)
  have look: "department_findFirst_name (c_name v) None p =
      (if failing p ?c then Throws else Returns ?found, ?p1)"
    by (simp add: department_findFirst_name_def)
  show ?thesis
  proof (cases "failing p ?c \<or> ?found \<noteq> None")
    case True
    then have "createDepartment_try newId v p = (Inl (the (create_checks v p)), ?p1)"
      using look by (auto simp: createDepartment_try_def create_checks_def)
    moreover have "create_checks v p \<noteq> None" using True by (auto simp: create_checks_def)
    ultimately show ?thesis using e1 by (intro exI [of _ ?p1]) auto
  next
    case False
    let ?p2 = "snd (validateManager (c_managerId v) ?p1)"
    have e2: "extends_log ?ok p ?p2"
      using extends_log_trans [OF e1 validateManager_extends] by (simp add: write_call_def)
    have m: "fst (validateManager (c_managerId v) ?p1) = fst (validateManager (c_managerId v) p)"
      by (simp add: logged_def)
    show ?thesis
    proof (cases "fst (validateManager (c_managerId v) p)")
      case (Some e)
      then have "createDepartment_try newId v p = (Inl e, ?p2)"
        using look False m by (simp add: createDepartment_try_def split_beta)
      moreover have "create_checks v p = Some e" using False Some by (simp add: create_checks_def)
      ultimately show ?thesis using e2 by (intro exI [of _ ?p2]) simp
    next
      case None
      let ?chk = "case c_parentId v of
                    Some (Some q) \<Rightarrow> if truthy q then validateParent q ?p2 else (None, ?p2)
                  | _ \<Rightarrow> (None, ?p2)"
      from extends_log_queries [OF e2] obtain l2 where l2: "?p2 = p\<lparr>queries := l2\<rparr>" ..
      have "extends_log ?ok ?p2 (snd ?chk)"
        by (auto simp: validateParent_extends write_call_def split: option.splits)
      then have e3: "extends_log ?ok p (snd ?chk)" using extends_log_trans [OF e2] by blast
      have c3: "fst ?chk = (case c_parentId v of
                Some (Some q) \<Rightarrow> if truthy q then fst (validateParent q p) else None
              | _ \<Rightarrow> None)"
        unfolding l2 by (simp add: validateParent_eq split: option.splits)
      have cc: "create_checks v p = fst ?chk"
        using False None c3 by (simp add: create_checks_def)
      have "createDepartment_try newId v p =
          (case fst ?chk of
             Some e \<Rightarrow> (Inl e, snd ?chk)
           | None \<Rightarrow>
               (case department_create newId v (snd ?chk) of
                  (Throws, p4) \<Rightarrow> (Inl PrismaError, p4)
                | (Returns d, p4) \<Rightarrow> (Inr d, p4)))"
        using look False m None
        by (simp add: createDepartment_try_def split_beta split: option.splits)
      then show ?thesis using e3 cc by (intro exI [of _ "snd ?chk"]) simp
    qed
  qed
qed


lemma createDepartment_reads:
  assumes auth: "checkAuthorization role [''ADMIN'', ''HR''] = None"
    and parse: "departmentSchema_parse input = Inr v"
  shows "\<exists>p3. extends_log (\<lambda>c. \<not> write_call c) p p3 \<and>
     createDepartment newId input role p =
       (case create_checks v p of
          Some e \<Rightarrow>
            (Inl (case e of ValidationError m \<Rightarrow> ValidationError m
                  | _ \<Rightarrow> Error ''Failed to create department''), p3)
        | None \<Rightarrow>
            (case department_create newId v p3 of
               (Throws, p4) \<Rightarrow> (Inl (Error ''Failed to create department''), p4)
             | (Returns d, p4) \<Rightarrow> (Inr d, p4)))"
proof -
  from createDepartment_try_reads [of p newId v] obtain p3 where
    e: "extends_log (\<lambda>c. \<not> write_call c) p p3" and
    t: "createDepartment_try newId v p =
       (case create_checks v p of
          Some e \<Rightarrow> (Inl e, p3)
        | None \<Rightarrow>
            (case department_create newId v p3 of
               (Throws, p4) \<Rightarrow> (Inl PrismaError, p4)
             | (Returns d, p4) \<Rightarrow> (Inr d, p4)))"
    by blast
  have "createDepartment newId input role p =
       (case create_checks v p of
          Some e \<Rightarrow>
            (Inl (case e of ValidationError m \<Rightarrow> ValidationError m
                  | _ \<Rightarrow> Error ''Failed to create department''), p3)
        | None \<Rightarrow>
            (case department_create newId v p3 of
               (Throws, p4) \<Rightarrow> (Inl (Error ''Failed to create department''), p4)
             | (Returns d, p4) \<Rightarrow> (Inr d, p4)))"
    using auth parse t
    by (simp add: createDepartment_def split: option.splits prod.splits reply.splits error.splits)
  with e show ?thesis by blast
qed

lemma department_create_Throws:
  "fst (department_create newId v q) = Throws \<Longrightarrow> data (snd (department_create newId v q)) = data q"
  by (auto simp: department_create_def logged_def Let_def split: if_splits)

lemma createDepartment_failure_data:
  assumes parse: "departmentSchema_parse input = Inr v"
    and fails: "isl (fst (createDepartment newId input role p))"
  shows "data (snd (createDepartment newId input role p)) = data p"
proof (cases "checkAuthorization role [''ADMIN'', ''HR'']")
  case (Some e)
  then show ?thesis by (simp add: createDepartment_def)
next
  case None
  from createDepartment_reads [OF None parse, of p newId] obtain p3 where
    e: "extends_log (\<lambda>c. \<not> write_call c) p p3" and
    u: "createDepartment newId input role p =
       (case create_checks v p of
          Some e \<Rightarrow>
            (Inl (case e of ValidationError m \<Rightarrow> ValidationError m
                  | _ \<Rightarrow> Error ''Failed to create department''), p3)
        | None \<Rightarrow>
            (case department_create newId v p3 of
               (Throws, p4) \<Rightarrow> (Inl (Error ''Failed to create department''), p4)
             | (Returns d, p4) \<Rightarrow> (Inr d, p4)))"
    by blast
  have d3: "data p3 = data p" using extends_log_data [OF e] by simp
  show ?thesis
  proof (cases "create_checks v p")
    case (Some e)
    then show ?thesis using u d3 by simp
  next
    case n: None
    then have s: "snd (createDepartment newId input role p) = snd (department_create newId v p3)"
      and f: "fst (department_create newId v p3) = Throws"
      using u fails by (auto split: prod.splits reply.splits)
    show ?thesis using s department_create_Throws [OF f] d3 by simp
  qed
qed

lemma create_checks_duplicate:
  assumes "\<exists>d\<in>set (departments (data p)). equals_insensitive (name d) (c_name v)"
  shows "create_checks v p =
     Some (if failing p (Department_findFirst_name (c_name v) None) then PrismaError
           else ValidationError ''Department name already exists'')"
proof -
  have "find (\<lambda>d. equals_insensitive (name d) (c_name v)) (departments (data p)) \<noteq> None"
    using assms by (auto simp: find_None_iff)
  then show ?thesis by (simp add: create_checks_def)
qed

lemma create_checks_fresh:
  assumes "\<forall>d\<in>set (departments (data p)). \<not> equals_insensitive (name d) (c_name v)"
  shows "create_checks v p \<noteq> Some (ValidationError ''Department name already exists'')"
proof -
  have none: "find (\<lambda>d. equals_insensitive (name d) (c_name v)) (departments (data p)) = None"
    using assms by (auto simp: find_None_iff)
  show ?thesis
  proof
    assume a: "create_checks v p = Some (ValidationError ''Department name already exists'')"
    then have nf: "\<not> failing p (Department_findFirst_name (c_name v) None)"
      by (auto simp: create_checks_def split: if_splits)
    show False
    proof (cases "fst (validateManager (c_managerId v) p)")
      case (Some e)
      then have "create_checks v p = Some e" using none nf by (simp add: create_checks_def)
      then show False using a validateManager_errors [OF Some] by auto
    next
      case None
      then have "\<exists>q. fst (validateParent q p) = Some (ValidationError ''Department name already exists'')"
        using a none nf by (auto simp: create_checks_def split: option.splits if_splits)
      then show False using validateParent_errors by fastforce
    qed
  qed
qed


text \<open>
  C6. Let the payload pass the schema; its validated name is the trimmed one. If any stored
  department, active or not, has that name up to case, create fails and the tables are
  unchanged; for an authorized caller whose name lookup answers, the error is
  \<open>ValidationError ''Department name already exists''\<close> and no write call is issued.
  If no stored department has the name up to case, create never fails with that error,
  and (no manager, no parent, a repository that answers and a free id) it appends the
  new row.
\<close>

theorem create_name_unique:
  assumes parse: "departmentSchema_parse input = Inr v"
    and r: "r = createDepartment newId input role p"
  shows "(in_name input = Str s \<longrightarrow> c_name v = trim s) \<and>
         ((\<exists>d\<in>set (departments (data p)). equals_insensitive (name d) (c_name v)) \<longrightarrow>
            isl (fst r) \<and> data (snd r) = data p \<and>
            (checkAuthorization role [''ADMIN'', ''HR''] = None \<and>
             \<not> failing p (Department_findFirst_name (c_name v) None) \<longrightarrow>
               fst r = Inl (ValidationError ''Department name already exists'') \<and>
               filter write_call (queries (snd r)) = filter write_call (queries p))) \<and>
         ((\<forall>d\<in>set (departments (data p)). \<not> equals_insensitive (name d) (c_name v)) \<longrightarrow>
            fst r \<noteq> Inl (ValidationError ''Department name already exists'') \<and>
            (checkAuthorization role [''ADMIN'', ''HR''] = None \<and>
             \<not> failing p (Department_findFirst_name (c_name v) None) \<and>
             \<not> failing p Department_create \<and> find_department p newId = None \<and>
             c_managerId v = None \<and> c_parentId v = None \<longrightarrow>
               fst r = Inr \<lparr>dept_id = newId, name = c_name v, description = c_description v,
                            isActive = c_isActive v, managerId = None, parentId = None\<rparr> \<and>
               departments (data (snd r)) = departments (data p) @
                 [\<lparr>dept_id = newId, name = c_name v, description = c_description v,
                   isActive = c_isActive v, managerId = None, parentId = None\<rparr>]))"
proof -
  have A: "in_name input = Str s \<longrightarrow> c_name v = trim s"
    using departmentSchema_parse_fields [OF parse]
    by (auto simp: parse_name_def split: if_splits)
  have B: "(\<exists>d\<in>set (departments (data p)). equals_insensitive (name d) (c_name v)) \<longrightarrow>
            isl (fst r) \<and> data (snd r) = data p \<and>
            (checkAuthorization role [''ADMIN'', ''HR''] = None \<and>
             \<not> failing p (Department_findFirst_name (c_name v) None) \<longrightarrow>
               fst r = Inl (ValidationError ''Department name already exists'') \<and>
               filter write_call (queries (snd r)) = filter write_call (queries p))"
  proof
    assume dup: "\<exists>d\<in>set (departments (data p)). equals_insensitive (name d) (c_name v)"
    note chk = create_checks_duplicate [OF dup]
    have fails: "isl (fst r)"
    proof (cases "checkAuthorization role [''ADMIN'', ''HR'']")
      case (Some e)
      then show ?thesis unfolding r by (simp add: createDepartment_def)
    next
      case None
      from createDepartment_reads [OF None parse, of p newId] chk
      show ?thesis unfolding r by auto
    qed
    then have same: "data (snd r) = data p"
      unfolding r by (rule createDepartment_failure_data [OF parse])
    have exact: "checkAuthorization role [''ADMIN'', ''HR''] = None \<and>
             \<not> failing p (Department_findFirst_name (c_name v) None) \<longrightarrow>
               fst r = Inl (ValidationError ''Department name already exists'') \<and>
               filter write_call (queries (snd r)) = filter write_call (queries p)"
    proof
      assume a: "checkAuthorization role [''ADMIN'', ''HR''] = None \<and>
             \<not> failing p (Department_findFirst_name (c_name v) None)"
      then have c: "create_checks v p = Some (ValidationError ''Department name already exists'')"
        using chk by simp
      from a have auth: "checkAuthorization role [''ADMIN'', ''HR''] = None" by simp
      from createDepartment_reads [OF auth parse, of p newId] obtain p3 where
        e: "extends_log (\<lambda>c. \<not> write_call c) p p3" and
        u: "r = (Inl (ValidationError ''Department name already exists''), p3)"
        unfolding r c by auto
      show "fst r = Inl (ValidationError ''Department name already exists'') \<and>
               filter write_call (queries (snd r)) = filter write_call (queries p)"
        using u extends_log_filter [OF e, of write_call] by simp
    qed
    show "isl (fst r) \<and> data (snd r) = data p \<and>
            (checkAuthorization role [''ADMIN'', ''HR''] = None \<and>
             \<not> failing p (Department_findFirst_name (c_name v) None) \<longrightarrow>
               fst r = Inl (ValidationError ''Department name already exists'') \<and>
               filter write_call (queries (snd r)) = filter write_call (queries p))"
      using fails same exact by blast
  qed
  have C: "(\<forall>d\<in>set (departments (data p)). \<not> equals_insensitive (name d) (c_name v)) \<longrightarrow>
            fst r \<noteq> Inl (ValidationError ''Department name already exists'') \<and>
            (checkAuthorization role [''ADMIN'', ''HR''] = None \<and>
             \<not> failing p (Department_findFirst_name (c_name v) None) \<and>
             \<not> failing p Department_create \<and> find_department p newId = None \<and>
             c_managerId v = None \<and> c_parentId v = None \<longrightarrow>
               fst r = Inr \<lparr>dept_id = newId, name = c_name v, description = c_description v,
                            isActive = c_isActive v, managerId = None, parentId = None\<rparr> \<and>
               departments (data (snd r)) = departments (data p) @
                 [\<lparr>dept_id = newId, name = c_name v, description = c_description v,
                   isActive = c_isActive v, managerId = None, parentId = None\<rparr>])"
  proof
    assume fresh: "\<forall>d\<in>set (departments (data p)). \<not> equals_insensitive (name d) (c_name v)"
    note chk = create_checks_fresh [OF fresh]
    have ne: "fst r \<noteq> Inl (ValidationError ''Department name already exists'')"
    proof (cases "checkAuthorization role [''ADMIN'', ''HR'']")
      case (Some e)
      then show ?thesis unfolding r by (auto simp: createDepartment_def checkAuthorization_def split: if_splits)
    next
      case None
      from createDepartment_reads [OF None parse, of p newId] obtain p3 where
        u: "r = (case create_checks v p of
          Some e \<Rightarrow>
            (Inl (case e of ValidationError m \<Rightarrow> ValidationError m
                  | _ \<Rightarrow> Error ''Failed to create department''), p3)
        | None \<Rightarrow>
            (case department_create newId v p3 of
               (Throws, p4) \<Rightarrow> (Inl (Error ''Failed to create department''), p4)
             | (Returns d, p4) \<Rightarrow> (Inr d, p4)))"
        unfolding r by blast
      show ?thesis
      proof (cases "create_checks v p")
        case None
        then show ?thesis using u by (simp split: prod.splits reply.splits)
      next
        case (Some e)
        then show ?thesis using u chk by (cases e) auto
      qed
    qed
    have ok: "checkAuthorization role [''ADMIN'', ''HR''] = None \<and>
             \<not> failing p (Department_findFirst_name (c_name v) None) \<and>
             \<not> failing p Department_create \<and> find_department p newId = None \<and>
             c_managerId v = None \<and> c_parentId v = None \<longrightarrow>
               fst r = Inr \<lparr>dept_id = newId, name = c_name v, description = c_description v,
                            isActive = c_isActive v, managerId = None, parentId = None\<rparr> \<and>
               departments (data (snd r)) = departments (data p) @
                 [\<lparr>dept_id = newId, name = c_name v, description = c_description v,
                   isActive = c_isActive v, managerId = None, parentId = None\<rparr>]"
    proof
      assume a: "checkAuthorization role [''ADMIN'', ''HR''] = None \<and>
             \<not> failing p (Department_findFirst_name (c_name v) None) \<and>
             \<not> failing p Department_create \<and> find_department p newId = None \<and>
             c_managerId v = None \<and> c_parentId v = None"
      have none: "find (\<lambda>d. equals_insensitive (name d) (c_name v)) (departments (data p)) = None"
        using fresh by (auto simp: find_None_iff)
      have c: "create_checks v p = None"
        using a none by (simp add: create_checks_def validateManager_def)
      from a have auth: "checkAuthorization role [''ADMIN'', ''HR''] = None" by simp
      from createDepartment_reads [OF auth parse, of p newId] obtain p3 where
        e: "extends_log (\<lambda>c. \<not> write_call c) p p3" and
        u: "r = (case department_create newId v p3 of
               (Throws, p4) \<Rightarrow> (Inl (Error ''Failed to create department''), p4)
             | (Returns d, p4) \<Rightarrow> (Inr d, p4))"
        unfolding r c by auto
      have same: "data p3 = data p" "failing p3 = failing p" "find_department p3 newId = None"
        using extends_log_data [OF e] a by (simp_all add: find_department_def)
      show "fst r = Inr \<lparr>dept_id = newId, name = c_name v, description = c_description v,
                            isActive = c_isActive v, managerId = None, parentId = None\<rparr> \<and>
               departments (data (snd r)) = departments (data p) @
                 [\<lparr>dept_id = newId, name = c_name v, description = c_description v,
                   isActive = c_isActive v, managerId = None, parentId = None\<rparr>]"
        using u same a by (simp add: department_create_def logged_def Let_def)
    qed
    show "fst r \<noteq> Inl (ValidationError ''Department name already exists'') \<and>
            (checkAuthorization role [''ADMIN'', ''HR''] = None \<and>
             \<not> failing p (Department_findFirst_name (c_name v) None) \<and>
             \<not> failing p Department_create \<and> find_department p newId = None \<and>
             c_managerId v = None \<and> c_parentId v = None \<longrightarrow>
               fst r = Inr \<lparr>dept_id = newId, name = c_name v, description = c_description v,
                            isActive = c_isActive v, managerId = None, parentId = None\<rparr> \<and>
               departments (data (snd r)) = departments (data p) @
                 [\<lparr>dept_id = newId, name = c_name v, description = c_description v,
                   isActive = c_isActive v, managerId = None, parentId = None\<rparr>])"
      using ne ok by blast
  qed
  show ?thesis by (rule conjI [OF A conjI [OF B C]])
qed


lemma named_parse:
  "departmentSchema_parse (named ''  ENGINEERING '') = Inr (plain ''ENGINEERING'')"
  "departmentSchema_parse (named ''Engineering2'') = Inr (plain ''Engineering2'')"
  by (simp_all add: named_def no_change_def plain_def departmentSchema_parse_def parse_name_def
      parse_optional_uuid_def parse_isActive_def parse_description_def trim_def is_space_def)

lemma engineering_insensitive:
  "equals_insensitive ''Engineering'' ''ENGINEERING''"
  "\<not> equals_insensitive ''Engineering'' ''Engineering2''"
  by code_simp+

theorem create_name_unique_witness:
  "fst (createDepartment id_sales (named ''  ENGINEERING '') ''HR'' eng_db) =
     Inl (ValidationError ''Department name already exists'') \<and>
   data (snd (createDepartment id_sales (named ''  ENGINEERING '') ''HR'' eng_db)) = data eng_db \<and>
   fst (createDepartment id_sales (named ''Engineering2'') ''HR'' eng_db) =
     Inr \<lparr>dept_id = id_sales, name = ''Engineering2'', description = None, isActive = True,
          managerId = None, parentId = None\<rparr>"
proof -
  have st: "departments (data eng_db) = [(dept id_lab ''Engineering'' None)\<lparr>isActive := False\<rparr>]"
    "\<not> failing eng_db c" "checkAuthorization ''HR'' [''ADMIN'', ''HR''] = None"
    "find_department eng_db id_sales = None" for c
    by (simp_all add: eng_db_def client_def no_faults_def checkAuthorization_def find_department_def
        dept_def id_lab_def id_sales_def)
  have 1: "fst (createDepartment id_sales (named ''  ENGINEERING '') ''HR'' eng_db) =
     Inl (ValidationError ''Department name already exists'') \<and>
     data (snd (createDepartment id_sales (named ''  ENGINEERING '') ''HR'' eng_db)) = data eng_db"
    using create_name_unique [OF named_parse(1) refl,
        where newId = id_sales and role = "''HR''" and p = eng_db]
      st engineering_insensitive
    by (simp add: plain_def dept_def)
  have 2: "fst (createDepartment id_sales (named ''Engineering2'') ''HR'' eng_db) =
     Inr \<lparr>dept_id = id_sales, name = ''Engineering2'', description = None, isActive = True,
          managerId = None, parentId = None\<rparr>"
    using create_name_unique [OF named_parse(2) refl,
        where newId = id_sales and role = "''HR''" and p = eng_db]
      st engineering_insensitive
    by (simp add: plain_def dept_def)
  from 1 2 show ?thesis by simp
qed

section \<open>Listing departments: validation and pagination\<close>

lemma getDepartmentsSchema_parse_cases:
  "(getDepartmentsSchema_parse q = Inl (ZodError (list_issues q)) \<and> list_issues q \<noteq> []) \<or>
   (list_issues q = [] \<and>
    (\<exists>v. getDepartmentsSchema_parse q = Inr v \<and>
       parse_userRole (q_userRole q) = Inr (userRole v) \<and>
       parse_page (q_page q) = Inr (page v) \<and>
       parse_limit (q_limit q) = Inr (limit v) \<and>
       parse_optional_boolean (q_isActive q) = Inr (isActive_filter v) \<and>
       parse_optional_uuid ''Invalid parent department ID'' (q_parentId q) = Inr (parentId_filter v) \<and>
       parse_search (q_search q) = Inr (search v) \<and>
       parse_sortBy (q_sortBy q) = Inr (sortBy v) \<and>
       parse_sortOrder (q_sortOrder q) = Inr (sortOrder v)))"
  unfolding getDepartmentsSchema_parse_def list_issues_def Let_def
  by (cases "parse_userRole (q_userRole q)";
      cases "parse_page (q_page q)";
      cases "parse_limit (q_limit q)";
      cases "parse_optional_boolean (q_isActive q)";
      cases "parse_optional_uuid ''Invalid parent department ID'' (q_parentId q)";
      cases "parse_search (q_search q)";
      cases "parse_sortBy (q_sortBy q)";
      cases "parse_sortOrder (q_sortOrder q)") (simp_all add: issue_def)


lemma neg_div_ceil: "0 < b \<Longrightarrow> - (- a div b) = (a + b - 1) div (b::int)"
proof -
  assume b: "0 < b"
  show ?thesis
  proof (cases "a mod b = 0")
    case True
    have lhs: "- (- a div b) = a div b"
      using b True by (simp add: zdiv_zminus1_eq_if)
    have "a + b - 1 = a div b * b + (b - 1)"
      using True by (simp add: algebra_simps dvd_eq_mod_eq_0 [symmetric])
    then have "(a + b - 1) div b = a div b + (b - 1) div b"
      using b by (metis div_mult_self3 less_irrefl)
    also have "(b - 1) div b = 0" using b by (simp add: div_pos_pos_trivial)
    finally show ?thesis using lhs by simp
  next
    case False
    have "0 \<le> a mod b" using b by (rule pos_mod_sign)
    with False have "0 < a mod b" by linarith
    moreover have "a mod b < b" using b by (rule pos_mod_bound)
    ultimately have r: "0 < a mod b" "a mod b < b" by blast+
    have lhs: "- (- a div b) = a div b + 1"
      using b False by (simp add: zdiv_zminus1_eq_if)
    have "a + b - 1 = (a div b + 1) * b + (a mod b - 1)"
      by (simp add: algebra_simps)
    then have "(a + b - 1) div b = (a div b + 1) + (a mod b - 1) div b"
      using b by (metis div_mult_self3 less_irrefl)
    also have "(a mod b - 1) div b = 0" using r by (simp add: div_pos_pos_trivial)
    finally show ?thesis using lhs by simp
  qed
qed

lemma ceil_div_int: "0 < b \<Longrightarrow> \<lceil>real_of_int a / real_of_int b\<rceil> = (a + b - 1) div b"
  by (simp add: ceiling_divide_eq_div neg_div_ceil)

lemma less_ceil_div: "0 < b \<Longrightarrow> (n < \<lceil>real_of_int a / real_of_int b\<rceil>) = (n * b < a)"
  by (simp add: less_ceiling_iff pos_less_divide_eq flip: of_int_mult)

lemma getDepartments_Inr:
  assumes "fst (getDepartments params p) = Inr res"
  shows "\<exists>v. getDepartmentsSchema_parse params = Inr v \<and>
           checkAuthorization (userRole v) [''ADMIN'', ''HR'', ''MANAGER''] = None \<and>
           fst (getDepartments_query v p) = Inr res"
  using assms
  by (auto simp: getDepartments_def split: sum.splits option.splits prod.splits)

lemma getDepartments_query_Inr:
  assumes "fst (getDepartments_query v p) = Inr res"
  shows "pg_pagination res =
           \<lparr>pg_page = page v, pg_limit = limit v,
            pg_total = int (length (filter (matches (build_where v)) (departments (data p)))),
            pg_pages = ceil_div (int (length (filter (matches (build_where v)) (departments (data p))))) (limit v),
            hasNext = (page v < ceil_div (int (length (filter (matches (build_where v)) (departments (data p))))) (limit v)),
            hasPrev = (page v > 1)\<rparr> \<and>
         pg_departments res =
           take (nat (limit v)) (drop (nat ((page v - 1) * limit v))
             (ordered p (sortBy v) (sortOrder v) (filter (matches (build_where v)) (departments (data p)))))"
  using assms
  by (auto simp: getDepartments_query_def department_findMany_def department_count_def logged_def
      Let_def split: if_splits)

lemma parse_limit_range: "parse_limit x = Inr l \<Longrightarrow> 1 \<le> l \<and> l \<le> 100 \<and>
    (x = Undefined \<longrightarrow> l = 10) \<and> (\<forall>n. x = Num n \<longrightarrow> l = n)"
  by (auto simp: parse_limit_def split: jsval.splits if_splits)

lemma parse_page_range: "parse_page x = Inr g \<Longrightarrow> 1 \<le> g"
  by (auto simp: parse_page_def split: jsval.splits if_splits)

lemma getDepartments_rejected:
  assumes "x \<in> set (list_issues params)"
  shows "(\<exists>issues. fst (getDepartments params p) = Inl (ZodError issues) \<and> x \<in> set issues) \<and>
         snd (getDepartments params p) = p"
proof -
  have "getDepartmentsSchema_parse params = Inl (ZodError (list_issues params))"
    using getDepartmentsSchema_parse_cases [of params] assms by auto
  then show ?thesis using assms by (simp add: getDepartments_def)
qed

text \<open>
  The pagination of the service. For every successful call of \<open>getDepartments\<close> the
  limit of the pagination is the supplied one (10 when absent) and lies in
  \<open>[1, 100]\<close>, the page is at least 1, the total is the number of rows matching the
  filter, and \<open>pages = \<lceil>total / limit\<rceil>\<close>, \<open>hasNext = (page < pages)\<close> (that is,
  rows remain after this page), \<open>hasPrev = (page > 1)\<close>. A limit outside
  \<open>[1, 100]\<close> never reaches the query: the schema of the service answers it with the
  issue of the violated bound.
\<close>

theorem pagination_invariant:
  assumes r: "r = getDepartments params p"
  shows "(fst r = Inr res \<and> g = pg_pagination res \<longrightarrow>
            1 \<le> pg_limit g \<and> pg_limit g \<le> 100 \<and>
            (q_limit params = Undefined \<longrightarrow> pg_limit g = 10) \<and>
            (\<forall>n. q_limit params = Num n \<longrightarrow> pg_limit g = n) \<and>
            1 \<le> pg_page g \<and>
            (\<exists>v. getDepartmentsSchema_parse params = Inr v \<and>
               pg_total g = int (length (filter (matches (build_where v)) (departments (data p))))) \<and>
            pg_pages g = \<lceil>real_of_int (pg_total g) / real_of_int (pg_limit g)\<rceil> \<and>
            pg_pages g = (pg_total g + pg_limit g - 1) div pg_limit g \<and>
            hasNext g = (pg_page g < pg_pages g) \<and>
            hasNext g = (pg_page g * pg_limit g < pg_total g) \<and>
            hasPrev g = (1 < pg_page g)) \<and>
         (q_limit params = Num n \<and> (n < 1 \<or> 100 < n) \<longrightarrow>
            (\<exists>issues. fst r = Inl (ZodError issues) \<and>
               (''limit'', Some (if n < 1 then ''Limit must be at least 1''
                                else ''Limit cannot exceed 100'')) \<in> set issues) \<and>
            snd r = p)"
proof -
  have A: "fst r = Inr res \<and> g = pg_pagination res \<longrightarrow>
            1 \<le> pg_limit g \<and> pg_limit g \<le> 100 \<and>
            (q_limit params = Undefined \<longrightarrow> pg_limit g = 10) \<and>
            (\<forall>n. q_limit params = Num n \<longrightarrow> pg_limit g = n) \<and>
            1 \<le> pg_page g \<and>
            (\<exists>v. getDepartmentsSchema_parse params = Inr v \<and>
               pg_total g = int (length (filter (matches (build_where v)) (departments (data p))))) \<and>
            pg_pages g = \<lceil>real_of_int (pg_total g) / real_of_int (pg_limit g)\<rceil> \<and>
            pg_pages g = (pg_total g + pg_limit g - 1) div pg_limit g \<and>
            hasNext g = (pg_page g < pg_pages g) \<and>
            hasNext g = (pg_page g * pg_limit g < pg_total g) \<and>
            hasPrev g = (1 < pg_page g)"
  proof
    assume a: "fst r = Inr res \<and> g = pg_pagination res"
    then obtain v where parse: "getDepartmentsSchema_parse params = Inr v"
      and q: "fst (getDepartments_query v p) = Inr res"
      using getDepartments_Inr [of params p res] unfolding r by blast
    let ?t = "int (length (filter (matches (build_where v)) (departments (data p))))"
    have g: "pg_page g = page v" "pg_limit g = limit v" "pg_total g = ?t"
      "pg_pages g = ceil_div ?t (limit v)" "hasNext g = (page v < ceil_div ?t (limit v))"
      "hasPrev g = (page v > 1)"
      using getDepartments_query_Inr [OF q] a by simp_all
    have fields: "parse_limit (q_limit params) = Inr (limit v)" "parse_page (q_page params) = Inr (page v)"
      using getDepartmentsSchema_parse_cases [of params] parse by auto
    note lim = parse_limit_range [OF fields(1)]
    note pag = parse_page_range [OF fields(2)]
    have pos: "0 < limit v" using lim by simp
    have "ceil_div ?t (limit v) = (?t + limit v - 1) div limit v"
      unfolding ceil_div_def using pos by (rule ceil_div_int)
    moreover have "(page v < ceil_div ?t (limit v)) = (page v * limit v < ?t)"
      unfolding ceil_div_def using pos by (rule less_ceil_div)
    ultimately show "1 \<le> pg_limit g \<and> pg_limit g \<le> 100 \<and>
            (q_limit params = Undefined \<longrightarrow> pg_limit g = 10) \<and>
            (\<forall>n. q_limit params = Num n \<longrightarrow> pg_limit g = n) \<and>
            1 \<le> pg_page g \<and>
            (\<exists>v. getDepartmentsSchema_parse params = Inr v \<and>
               pg_total g = int (length (filter (matches (build_where v)) (departments (data p))))) \<and>
            pg_pages g = \<lceil>real_of_int (pg_total g) / real_of_int (pg_limit g)\<rceil> \<and>
            pg_pages g = (pg_total g + pg_limit g - 1) div pg_limit g \<and>
            hasNext g = (pg_page g < pg_pages g) \<and>
            hasNext g = (pg_page g * pg_limit g < pg_total g) \<and>
            hasPrev g = (1 < pg_page g)"
      using g lim pag parse by (simp add: ceil_div_def)
  qed
  have B: "q_limit params = Num n \<and> (n < 1 \<or> 100 < n) \<longrightarrow>
            (\<exists>issues. fst r = Inl (ZodError issues) \<and>
               (''limit'', Some (if n < 1 then ''Limit must be at least 1''
                                else ''Limit cannot exceed 100'')) \<in> set issues) \<and>
            snd r = p"
  proof
    assume a: "q_limit params = Num n \<and> (n < 1 \<or> 100 < n)"
    then have "(''limit'', Some (if n < 1 then ''Limit must be at least 1''
                                else ''Limit cannot exceed 100'')) \<in> set (list_issues params)"
      by (auto simp: list_issues_def issue_def parse_limit_def)
    from getDepartments_rejected [OF this, of p]
    show "(\<exists>issues. fst r = Inl (ZodError issues) \<and>
               (''limit'', Some (if n < 1 then ''Limit must be at least 1''
                                else ''Limit cannot exceed 100'')) \<in> set issues) \<and>
            snd r = p"
      unfolding r .
  qed
  show ?thesis by (rule conjI [OF A B])
qed


lemma list_page2:
  "fst (getDepartments (list_query\<lparr>q_page := Num 2, q_limit := Num 3\<rparr>) org_db) =
     Inr \<lparr>pg_departments = [lab_row],
          pg_pagination = \<lparr>pg_page = 2, pg_limit = 3, pg_total = 4, pg_pages = 2,
                            hasNext = False, hasPrev = True\<rparr>\<rparr>"
  by (simp add: getDepartments_def getDepartmentsSchema_parse_def list_query_def
      parse_userRole_def parse_page_def parse_limit_def parse_optional_boolean_def
      parse_optional_uuid_def parse_search_def parse_sortBy_def parse_sortOrder_def
      checkAuthorization_def getDepartments_query_def build_where_def matches_def
      department_findMany_def department_count_def logged_def ceil_div_def stored_order_def
      org_db_def client_def no_faults_def)

theorem pagination_invariant_witness:
  "fst (getDepartments (list_query\<lparr>q_page := Num 2, q_limit := Num 3\<rparr>) org_db) =
     Inr \<lparr>pg_departments = [lab_row],
          pg_pagination = \<lparr>pg_page = 2, pg_limit = 3, pg_total = 4, pg_pages = 2,
                            hasNext = False, hasPrev = True\<rparr>\<rparr> \<and>
   (2::int) = \<lceil>real_of_int 4 / real_of_int 3\<rceil> \<and>
   (\<exists>issues. fst (getDepartments (list_query\<lparr>q_limit := Num 0\<rparr>) org_db) = Inl (ZodError issues) \<and>
      (''limit'', Some ''Limit must be at least 1'') \<in> set issues)"
proof -
  note a = pagination_invariant [OF refl,
      where params = "list_query\<lparr>q_page := Num 2, q_limit := Num 3\<rparr>" and p = org_db
        and res = "\<lparr>pg_departments = [lab_row],
          pg_pagination = \<lparr>pg_page = 2, pg_limit = 3, pg_total = 4, pg_pages = 2,
                            hasNext = False, hasPrev = True\<rparr>\<rparr>"
        and g = "\<lparr>pg_page = 2, pg_limit = 3, pg_total = 4, pg_pages = 2,
                            hasNext = False, hasPrev = True\<rparr>"]
  note b = pagination_invariant [OF refl,
      where params = "list_query\<lparr>q_limit := Num 0\<rparr>" and p = org_db and n = 0]
  have 1: "(2::int) = \<lceil>real_of_int 4 / real_of_int 3\<rceil>"
    using a list_page2 by simp
  have 2: "\<exists>issues. fst (getDepartments (list_query\<lparr>q_limit := Num 0\<rparr>) org_db) = Inl (ZodError issues) \<and>
      (''limit'', Some ''Limit must be at least 1'') \<in> set issues"
    using b by (simp add: list_query_def)
  from list_page2 1 2 show ?thesis by blast
qed

lemma listDepartmentsSchema_limit_range:
  "\<exists>l. listDepartmentsSchema_limit val = Inr l \<and> 1 \<le> l \<and> l \<le> 100"
  by (auto simp: listDepartmentsSchema_limit_def limit_preprocess_def parse_limit_def
      split: jsval.splits option.splits)

text \<open>
  C8. A limit outside \<open>[1, 100]\<close> is clamped on one of the two list paths of the
  repository and rejected on the other. The route's \<^verbatim>\<open>listDepartmentsSchema\<close> brings
  it into the range before validating it (101 becomes 100, 0 becomes 1; by
  \<open>listDepartmentsSchema_limit_range\<close> it never has an issue for \<open>limit\<close>). The
  service's \<^verbatim>\<open>getDepartmentsSchema\<close> holds the same field schema without that step:
  \<open>getDepartments\<close> with \<open>limit = 101\<close> ends in a \<open>ZodError\<close> with the issue
  \<^verbatim>\<open>Limit cannot exceed 100\<close>, with \<open>limit = 0\<close> in one with
  \<^verbatim>\<open>Limit must be at least 1\<close>, and the repository is not queried.
\<close>

theorem limit_out_of_range_divergence:
  "getDepartments (list_query\<lparr>q_limit := Num 101\<rparr>) org_db =
     (Inl (ZodError [(''limit'', Some ''Limit cannot exceed 100'')]), org_db) \<and>
   listDepartmentsSchema_limit (Str ''101'') = Inr 100 \<and>
   getDepartments (list_query\<lparr>q_limit := Num 0\<rparr>) org_db =
     (Inl (ZodError [(''limit'', Some ''Limit must be at least 1'')]), org_db) \<and>
   listDepartmentsSchema_limit (Str ''0'') = Inr 1"
  by (simp add: getDepartments_def getDepartmentsSchema_parse_def list_query_def
      parse_userRole_def parse_page_def parse_limit_def parse_optional_boolean_def
      parse_optional_uuid_def parse_search_def parse_sortBy_def parse_sortOrder_def issue_def
      listDepartmentsSchema_limit_def limit_preprocess_def parseInt_def trim_def
      is_space_def is_digit_def digit_value_def)

text \<open>
  The sort parameters of the service. An absent \<open>sortBy\<close> is the same call as
  \<open>sortBy = 'name'\<close>, an absent \<open>sortOrder\<close> the same call as
  \<open>sortOrder = 'asc'\<close>, and with both absent a successful call returns a page of the
  matching rows in the repository's order by name, ascending. A \<open>sortBy\<close> that is
  present and is none of \<open>name\<close>, \<open>createdAt\<close>, \<open>updatedAt\<close> (a string or
  any other value) never reaches the query: the schema of the service answers it with an
  issue.
\<close>

theorem sortBy_validation:
  assumes r: "r = getDepartments params p"
  shows "(q_sortBy params = Undefined \<longrightarrow> r = getDepartments (params\<lparr>q_sortBy := Str ''name''\<rparr>) p) \<and>
         (q_sortOrder params = Undefined \<longrightarrow> r = getDepartments (params\<lparr>q_sortOrder := Str ''asc''\<rparr>) p) \<and>
         (q_sortBy params = Undefined \<and> q_sortOrder params = Undefined \<and> fst r = Inr res \<longrightarrow>
            (\<exists>w skip tk. pg_departments res =
               take tk (drop skip (ordered p SortName Asc (filter (matches w) (departments (data p))))))) \<and>
         (q_sortBy params \<noteq> Undefined \<and> q_sortBy params \<noteq> Str ''name'' \<and>
          q_sortBy params \<noteq> Str ''createdAt'' \<and> q_sortBy params \<noteq> Str ''updatedAt'' \<longrightarrow>
            (\<exists>issues. fst r = Inl (ZodError issues) \<and> (''sortBy'', None) \<in> set issues) \<and>
            snd r = p)"
proof -
  have A: "q_sortBy params = Undefined \<longrightarrow> r = getDepartments (params\<lparr>q_sortBy := Str ''name''\<rparr>) p"
    unfolding r by (simp add: getDepartments_def getDepartmentsSchema_parse_def parse_sortBy_def)
  have B: "q_sortOrder params = Undefined \<longrightarrow> r = getDepartments (params\<lparr>q_sortOrder := Str ''asc''\<rparr>) p"
    unfolding r by (simp add: getDepartments_def getDepartmentsSchema_parse_def parse_sortOrder_def)
  have C: "q_sortBy params = Undefined \<and> q_sortOrder params = Undefined \<and> fst r = Inr res \<longrightarrow>
            (\<exists>w skip tk. pg_departments res =
               take tk (drop skip (ordered p SortName Asc (filter (matches w) (departments (data p))))))"
  proof
    assume a: "q_sortBy params = Undefined \<and> q_sortOrder params = Undefined \<and> fst r = Inr res"
    then obtain v where parse: "getDepartmentsSchema_parse params = Inr v"
      and q: "fst (getDepartments_query v p) = Inr res"
      using getDepartments_Inr [of params p res] unfolding r by blast
    have "parse_sortBy (q_sortBy params) = Inr (sortBy v)" "parse_sortOrder (q_sortOrder params) = Inr (sortOrder v)"
      using getDepartmentsSchema_parse_cases [of params] parse by auto
    then have "sortBy v = SortName" "sortOrder v = Asc"
      using a by (simp_all add: parse_sortBy_def parse_sortOrder_def)
    then show "\<exists>w skip tk. pg_departments res =
               take tk (drop skip (ordered p SortName Asc (filter (matches w) (departments (data p)))))"
      using getDepartments_query_Inr [OF q] by metis
  qed
  have D: "q_sortBy params \<noteq> Undefined \<and> q_sortBy params \<noteq> Str ''name'' \<and>
          q_sortBy params \<noteq> Str ''createdAt'' \<and> q_sortBy params \<noteq> Str ''updatedAt'' \<longrightarrow>
            (\<exists>issues. fst r = Inl (ZodError issues) \<and> (''sortBy'', None) \<in> set issues) \<and>
            snd r = p"
  proof
    assume a: "q_sortBy params \<noteq> Undefined \<and> q_sortBy params \<noteq> Str ''name'' \<and>
          q_sortBy params \<noteq> Str ''createdAt'' \<and> q_sortBy params \<noteq> Str ''updatedAt''"
    then have "parse_sortBy (q_sortBy params) = Inl None"
      by (cases "q_sortBy params") (simp_all add: parse_sortBy_def)
    then have "(''sortBy'', None) \<in> set (list_issues params)"
      by (simp add: list_issues_def issue_def)
    from getDepartments_rejected [OF this, of p]
    show "(\<exists>issues. fst r = Inl (ZodError issues) \<and> (''sortBy'', None) \<in> set issues) \<and> snd r = p"
      unfolding r .
  qed
  show ?thesis by (rule conjI [OF A conjI [OF B conjI [OF C D]]])
qed

lemma list_default:
  "fst (getDepartments list_query org_db) =
     Inr \<lparr>pg_departments = [sales_row, inside_row, legacy_row, lab_row],
          pg_pagination = \<lparr>pg_page = 1, pg_limit = 10, pg_total = 4, pg_pages = 1,
                            hasNext = False, hasPrev = False\<rparr>\<rparr>"
  by (simp add: getDepartments_def getDepartmentsSchema_parse_def list_query_def
      parse_userRole_def parse_page_def parse_limit_def parse_optional_boolean_def
      parse_optional_uuid_def parse_search_def parse_sortBy_def parse_sortOrder_def
      checkAuthorization_def getDepartments_query_def build_where_def matches_def
      department_findMany_def department_count_def logged_def ceil_div_def stored_order_def
      org_db_def client_def no_faults_def)

theorem sortBy_validation_witness:
  "getDepartments list_query org_db = getDepartments (list_query\<lparr>q_sortBy := Str ''name''\<rparr>) org_db \<and>
   getDepartments list_query org_db = getDepartments (list_query\<lparr>q_sortOrder := Str ''asc''\<rparr>) org_db \<and>
   (\<exists>w skip tk. [sales_row, inside_row, legacy_row, lab_row] =
      take tk (drop skip (ordered org_db SortName Asc (filter (matches w) (departments (data org_db)))))) \<and>
   (\<exists>issues. fst (getDepartments (list_query\<lparr>q_sortBy := Str ''priority''\<rparr>) org_db) =
        Inl (ZodError issues) \<and> (''sortBy'', None) \<in> set issues)"
proof -
  note a = sortBy_validation [OF refl, where params = list_query and p = org_db
      and res = "\<lparr>pg_departments = [sales_row, inside_row, legacy_row, lab_row],
          pg_pagination = \<lparr>pg_page = 1, pg_limit = 10, pg_total = 4, pg_pages = 1,
                            hasNext = False, hasPrev = False\<rparr>\<rparr>"]
  note b = sortBy_validation [OF refl,
      where params = "list_query\<lparr>q_sortBy := Str ''priority''\<rparr>" and p = org_db]
  have 1: "getDepartments list_query org_db = getDepartments (list_query\<lparr>q_sortBy := Str ''name''\<rparr>) org_db"
    "getDepartments list_query org_db = getDepartments (list_query\<lparr>q_sortOrder := Str ''asc''\<rparr>) org_db"
    using a [THEN conjunct1] a [THEN conjunct2, THEN conjunct1] by (simp_all add: list_query_def)
  have 2: "\<exists>issues. fst (getDepartments (list_query\<lparr>q_sortBy := Str ''priority''\<rparr>) org_db) =
        Inl (ZodError issues) \<and> (''sortBy'', None) \<in> set issues"
    using b [THEN conjunct2, THEN conjunct2, THEN conjunct2] by (simp add: list_query_def)
  have 3: "\<exists>w skip tk. [sales_row, inside_row, legacy_row, lab_row] =
      take tk (drop skip (ordered org_db SortName Asc (filter (matches w) (departments (data org_db)))))"
    using a [THEN conjunct2, THEN conjunct2, THEN conjunct1] list_default
    by (simp add: list_query_def)
  from 1 2 3 show ?thesis by blast
qed

lemma listDepartmentsSchema_sortBy_total:
  "listDepartmentsSchema_sortBy val =
     (case parse_sortBy val of Inl m \<Rightarrow> Inr SortName | Inr f \<Rightarrow> Inr f)"
  by (simp add: listDepartmentsSchema_sortBy_def zod_catch_def)

text \<open>
  C9. An unrecognized sort key falls back to the default on one of the two list paths of
  the repository and is an error on the other. The route's \<^verbatim>\<open>listDepartmentsSchema\<close>
  ends \<open>sortBy\<close> in \<^verbatim>\<open>.catch('name')\<close> and \<open>sortOrder\<close> in
  \<^verbatim>\<open>.catch('asc')\<close>: \<open>sortBy = 'priority'\<close> is read as \<open>name\<close>, ascending
  when no order is given (by \<open>listDepartmentsSchema_sortBy_total\<close> the field never has
  an issue). The service's \<^verbatim>\<open>getDepartmentsSchema\<close> holds the same two enums without
  the \<^verbatim>\<open>.catch\<close>: \<open>getDepartments\<close> with \<open>sortBy = 'priority'\<close> ends in a
  \<open>ZodError\<close> for \<open>sortBy\<close>, and the repository is not queried.
\<close>

theorem unknown_sortBy_divergence:
  "getDepartments (list_query\<lparr>q_sortBy := Str ''priority''\<rparr>) org_db =
     (Inl (ZodError [(''sortBy'', None)]), org_db) \<and>
   listDepartmentsSchema_sortBy (Str ''priority'') = Inr SortName \<and>
   listDepartmentsSchema_sortOrder Undefined = Inr Asc"
  by (simp add: getDepartments_def getDepartmentsSchema_parse_def list_query_def
      parse_userRole_def parse_page_def parse_limit_def parse_optional_boolean_def
      parse_optional_uuid_def parse_search_def parse_sortBy_def parse_sortOrder_def issue_def
      listDepartmentsSchema_sortBy_def listDepartmentsSchema_sortOrder_def zod_catch_def)

section \<open>Further properties\<close>

lemma loop_lookups_bounded:
  "\<exists>cs. snd (checkCircularReference_loop c V d p) =
        p\<lparr>queries := queries p @ map Department_findUnique_parentId cs\<rparr> \<and>
        length cs \<le> maxDepth - d"
proof (induction c V d p rule: checkCircularReference_loop.induct)
  case (1 c V d p)
  show ?case
  proof (cases c)
    case None
    then show ?thesis
      by (subst checkCircularReference_loop.simps) (rule exI [of _ "[]"], simp)
  next
    case (Some x)
    show ?thesis
    proof (cases "x \<noteq> [] \<and> d < maxDepth \<and> x \<notin> V")
      case False
      then show ?thesis using Some
        by (subst checkCircularReference_loop.simps) (rule exI [of _ "[]"], auto)
    next
      case True
      show ?thesis
      proof (cases "select_parentId p x")
        case Throws
        then show ?thesis using Some True
          by (subst checkCircularReference_loop.simps)
             (rule exI [of _ "[x]"], auto simp: department_findUnique_parentId_def logged_def)
      next
        case (Returns r)
        show ?thesis
        proof (cases r)
          case None
          then show ?thesis using Some True Returns
            by (subst checkCircularReference_loop.simps)
               (rule exI [of _ "[x]"], auto simp: department_findUnique_parentId_def logged_def)
        next
          case (Some parent)
          have fu: "department_findUnique_parentId x p =
              (Returns (Some parent), logged (Department_findUnique_parentId x) p)"
            using Returns Some by (simp add: department_findUnique_parentId_def)
          from "1.IH" [OF \<open>c = Some x\<close> _ _ _ _ refl] True fu
          obtain cs where "snd (checkCircularReference_loop parent (insert x V) (d + 1)
                (logged (Department_findUnique_parentId x) p)) =
              (logged (Department_findUnique_parentId x) p)
                \<lparr>queries := queries (logged (Department_findUnique_parentId x) p) @
                   map Department_findUnique_parentId cs\<rparr>"
            and "length cs \<le> maxDepth - (d + 1)"
            by auto
          then have "snd (checkCircularReference_loop c V d p) =
              p\<lparr>queries := queries p @ map Department_findUnique_parentId (x # cs)\<rparr> \<and>
              length (x # cs) \<le> maxDepth - d"
            using \<open>c = Some x\<close> True fu
            by (subst checkCircularReference_loop.simps) (auto simp: logged_def)
          then show ?thesis by blast
        qed
      qed
    qed
  qed
qed

text \<open>
  The cycle check is read-only and bounded: whatever the arguments and the state, it
  leaves the client state as it was but for the log, to which it adds at most 50 lookups
  of a \<open>parentId\<close>.
\<close>

theorem cycle_check_reads_only:
  "\<exists>cs. snd (checkCircularReference departmentId newParentId p) =
          p\<lparr>queries := queries p @ map Department_findUnique_parentId cs\<rparr> \<and>
        length cs \<le> 50"
proof (cases "departmentId = newParentId")
  case True
  then show ?thesis unfolding checkCircularReference_def by (intro exI [of _ "[]"]) simp
next
  case False
  then show ?thesis
    using loop_lookups_bounded [of "Some newParentId" "{departmentId}" 0 p]
    unfolding checkCircularReference_def by (simp add: maxDepth_def)
qed

lemma walks_append:
  "walks p cur (xs @ ys) e = (\<exists>m. walks p cur xs m \<and> walks p m ys e)"
  by (induction xs arbitrary: cur) (auto split: reply.splits option.splits)

text \<open>
  On a well-formed hierarchy the check is exact. If the walk from the proposed parent
  reaches a root (a row without parent) along the pairwise different nodes \<open>cs\<close>, at
  most \<open>maxDepth\<close> of them, then a cycle is reported exactly when the department is
  one of \<open>cs\<close>: the proposed parent itself or one of its ancestors.
\<close>

theorem cycle_check_exact:
  assumes chain: "walks p (Some newParentId) cs None"
    and dist: "distinct cs" and len: "length cs \<le> maxDepth"
  shows "fst (checkCircularReference departmentId newParentId p) = (departmentId \<in> set cs)"
proof (cases "departmentId \<in> set cs")
  case False
  from chain have "cs \<noteq> []" by (cases cs) auto
  then have hd: "newParentId \<in> set cs" using chain by (cases cs) auto
  then have ne: "departmentId \<noteq> newParentId" using False by auto
  have "checkCircularReference_loop (Some newParentId) {departmentId} 0 p =
        checkCircularReference_loop None (set cs \<union> {departmentId}) (0 + length cs)
          (p\<lparr>queries := queries p @ map Department_findUnique_parentId cs\<rparr>)"
    using chain dist len False by (intro loop_walks) auto
  also have "fst \<dots> = False"
    by (subst checkCircularReference_loop.simps) simp
  finally show ?thesis using ne False by (simp add: checkCircularReference_def)
next
  case True
  then obtain pre post where cs: "cs = pre @ departmentId # post" and first: "departmentId \<notin> set pre"
    by (meson split_list_first)
  show ?thesis
  proof (cases "departmentId = newParentId")
    case True
    then show ?thesis using \<open>departmentId \<in> set cs\<close> by (simp add: checkCircularReference_def)
  next
    case False
    from chain cs obtain m where w1: "walks p (Some newParentId) pre m"
      and w2: "walks p m (departmentId # post) None"
      by (auto simp: walks_append)
    from w2 have m: "m = Some departmentId" and nonempty: "departmentId \<noteq> []" by auto
    have short: "length pre < maxDepth" using len cs by simp
    have "checkCircularReference_loop (Some newParentId) {departmentId} 0 p =
          checkCircularReference_loop (Some departmentId) (set pre \<union> {departmentId}) (0 + length pre)
            (p\<lparr>queries := queries p @ map Department_findUnique_parentId pre\<rparr>)"
      using w1 m dist cs first short by (intro loop_walks) auto
    also have "fst \<dots> = True"
      using nonempty short by (subst checkCircularReference_loop.simps) simp
    finally show ?thesis using False \<open>departmentId \<in> set cs\<close> by (simp add: checkCircularReference_def)
  qed
qed

theorem cycle_check_exact_witness:
  "fst (checkCircularReference ''A'' ''C'' chain_db) = (''A'' \<in> set [''C'', ''B'', ''A'']) \<and>
   fst (checkCircularReference ''D'' ''C'' chain_db) = (''D'' \<in> set [''C'', ''B'', ''A''])"
proof -
  have w: "walks chain_db (Some ''C'') [''C'', ''B'', ''A''] None"
    by (simp add: select_parentId_def find_department_def chain_db_def client_def dept_def no_faults_def)
  have d: "distinct [''C'', ''B'', ''A'']" "length [''C'', ''B'', ''A''] \<le> maxDepth"
    by (simp_all add: maxDepth_def)
  show ?thesis
    using cycle_check_exact [OF w d, of "''A''"] cycle_check_exact [OF w d, of "''D''"] by simp
qed

text \<open>
  The depth bound hides deep cycles. In \<open>deep_db\<close> the department \<open>node 50\<close> is
  the 50th ancestor of \<open>node 0\<close>, so making \<open>node 0\<close> its parent closes a cycle; the
  check stops after 50 lookups and reports none.
\<close>

theorem deep_cycle_missed:
  "walks deep_db (Some (node 0)) (map node [0..<50]) (Some (node 50)) \<and>
   fst (checkCircularReference (node 50) (node 0) deep_db) = False"
proof
  show w: "walks deep_db (Some (node 0)) (map node [0..<50]) (Some (node 50))" by (rule deep_walk)
  have "checkCircularReference_loop (Some (node 0)) {node 50} 0 deep_db =
        checkCircularReference_loop (Some (node 50)) (set (map node [0..<50]) \<union> {node 50})
          (0 + length (map node [0..<50]))
          (deep_db\<lparr>queries := queries deep_db @ map Department_findUnique_parentId (map node [0..<50])\<rparr>)"
    using w by (intro loop_walks) (auto simp: distinct_map inj_on_def maxDepth_def)
  also have "fst \<dots> = False"
    by (subst checkCircularReference_loop.simps) (simp add: maxDepth_def)
  finally show "fst (checkCircularReference (node 50) (node 0) deep_db) = False"
    by (simp add: checkCircularReference_def)
qed

text \<open>
  An update that fails, for whatever reason, leaves the tables as they were.
\<close>

theorem failed_update_writes_nothing:
  assumes "isl (fst (updateDepartment i input role p))"
  shows "data (snd (updateDepartment i input role p)) = data p"
  using assms by (rule updateDepartment_failure_data)

theorem failed_update_writes_nothing_witness:
  "isl (fst (updateDepartment id_sales (no_change\<lparr>in_parentId := Str id_inside\<rparr>) ''ADMIN'' org_db)) \<and>
   data (snd (updateDepartment id_sales (no_change\<lparr>in_parentId := Str id_inside\<rparr>) ''ADMIN'' org_db)) =
     data org_db"
proof -
  have "isl (fst (updateDepartment id_sales (no_change\<lparr>in_parentId := Str id_inside\<rparr>) ''ADMIN'' org_db))"
    by code_simp
  then show ?thesis using failed_update_writes_nothing by blast
qed

end
